theory Spec2Isabelle
  imports Main "HOL-Library.Sublist"
begin

section \<open>Python values\<close>

text \<open>
  The wrapper of \<^verbatim>\<open>pygsheets/drive.py\<close> passes keyword dictionaries to the Drive client and
  reads the decoded JSON objects it answers with. A Python value is one of the JSON shapes; a
  dictionary at top level (keyword arguments, a response, a request body) is a map from keys
  to values, a nested one an association list in insertion order.
\<close>

datatype pyval =
    PNone
  | PBool bool
  | PInt int
  | PStr string
  | PList "pyval list"
  | PDict "(string \<times> pyval) list"

type_synonym pydict = "string \<Rightarrow> pyval option"

text \<open>The truth value Python gives a value in \<^verbatim>\<open>if\<close> and \<^verbatim>\<open>and\<close>.\<close>

fun truthy :: "pyval \<Rightarrow> bool" where
  "truthy PNone = False"
| "truthy (PBool b) = b"
| "truthy (PInt n) = (n \<noteq> 0)"
| "truthy (PStr s) = (s \<noteq> [])"
| "truthy (PList xs) = (xs \<noteq> [])"
| "truthy (PDict kvs) = (kvs \<noteq> [])"

section \<open>Exceptions\<close>

text \<open>
  An exception raised inside the client library (\<^verbatim>\<open>request.execute()\<close>,
  \<^verbatim>\<open>downloader.next_chunk()\<close>) is seen by the wrapper through three observations only:
  whether it is an instance of \<^verbatim>\<open>HttpError\<close>, its \<^verbatim>\<open>repr\<close> and its \<^verbatim>\<open>str\<close>.
\<close>

record raised =
  is_HttpError :: bool
  exc_repr :: string
  exc_str :: string

text \<open>
  What a method of the wrapper can raise: an exception of the library travelling unchanged
  (\<open>Raised\<close>), one of the three exceptions of \<^verbatim>\<open>pygsheets.exceptions\<close>, or one of the
  interpreter's own.
\<close>

datatype error =
    Raised raised
  | RequestError string
  | InvalidArgumentValue string
  | CannotRemoveOwnerError string
  | KeyError string
  | TypeError string
  | ValueError string
  | OSError string

text \<open>\<^verbatim>\<open>list.extend(v)\<close> walks \<open>v\<close>: a list gives its items, a string its characters, a
  dictionary its keys; anything else is not iterable.\<close>

fun iter :: "pyval \<Rightarrow> error + pyval list" where
  "iter (PList xs) = Inr xs"
| "iter (PStr s) = Inr (map (\<lambda>c. PStr [c]) s)"
| "iter (PDict kvs) = Inr (map (\<lambda>kv. PStr (fst kv)) kvs)"
| "iter PNone = Inl (TypeError ''object is not iterable'')"
| "iter (PBool b) = Inl (TypeError ''object is not iterable'')"
| "iter (PInt n) = Inl (TypeError ''object is not iterable'')"

text \<open>\<^verbatim>\<open>response[key]\<close>, where \<open>response\<close> may be \<^verbatim>\<open>None\<close>.\<close>

fun subscript :: "pydict option \<Rightarrow> string \<Rightarrow> error + pyval" where
  "subscript None key = Inl (TypeError ''NoneType object is not subscriptable'')"
| "subscript (Some d) key = (case d key of None \<Rightarrow> Inl (KeyError key) | Some v \<Rightarrow> Inr v)"

text \<open>\<^verbatim>\<open>result.extend(response[key])\<close>.\<close>

definition list_extend :: "pyval list \<Rightarrow> pydict option \<Rightarrow> string \<Rightarrow> error + pyval list" where
  "list_extend result response key =
     (case subscript response key of
        Inl e \<Rightarrow> Inl e
      | Inr v \<Rightarrow> (case iter v of Inl e \<Rightarrow> Inl e | Inr items \<Rightarrow> Inr (result @ items)))"

text \<open>
  A call \<^verbatim>\<open>f(name=..., **kwargs)\<close> raises \<^verbatim>\<open>TypeError\<close> when \<open>kwargs\<close> repeats a keyword
  written out in the call; \<open>duplicate_keyword\<close> finds the first such keyword.
\<close>

definition duplicate_keyword :: "string list \<Rightarrow> pydict \<Rightarrow> string option" where
  "duplicate_keyword names kwargs = List.find (\<lambda>k. kwargs k \<noteq> None) names"

definition multiple_values :: "string \<Rightarrow> error" where
  "multiple_values k = TypeError (''got multiple values for keyword argument '' @ k)"

section \<open>Strings\<close>

text \<open>\<^verbatim>\<open>s.find(sub)\<close>: the lowest index at which \<open>sub\<close> occurs in \<open>s\<close>, or \<open>-1\<close>.\<close>

fun find_from :: "string \<Rightarrow> string \<Rightarrow> int \<Rightarrow> int" where
  "find_from sub [] i = (if sub = [] then i else - 1)"
| "find_from sub (c # cs) i = (if prefix sub (c # cs) then i else find_from sub cs (i + 1))"

definition str_find :: "string \<Rightarrow> string \<Rightarrow> int" where
  "str_find s sub = find_from sub s 0"

text \<open>\<^verbatim>\<open>s.split(sep)\<close> for a separator of one character.\<close>

fun split_on :: "char \<Rightarrow> string \<Rightarrow> string list" where
  "split_on sep [] = [[]]"
| "split_on sep (c # cs) =
     (if c = sep then [] # split_on sep cs
      else (case split_on sep cs of [] \<Rightarrow> [[c]] | p # ps \<Rightarrow> (c # p) # ps))"

text \<open>\<^verbatim>\<open>str(n)\<close> of an integer, in decimal.\<close>

definition digit :: "nat \<Rightarrow> char" where
  "digit d = ''0123456789'' ! d"

fun str_nat :: "nat \<Rightarrow> string" where
  "str_nat n = (if n < 10 then [digit n] else str_nat (n div 10) @ [digit (n mod 10)])"

definition str_int :: "int \<Rightarrow> string" where
  "str_int i = (if i < 0 then CHR ''-'' # str_nat (nat (- i)) else str_nat (nat i))"

declare str_nat.simps [simp del]

section \<open>Regular expressions\<close>

text \<open>
  The two patterns of the module use literal characters, an optional item, and one-or-more repetitions
  of a character class. \<open>rests r s\<close> lists, in the matcher's order of preference, what is left
  of \<open>s\<close> after each way of matching \<open>r\<close> at its start; the pattern matches there when some
  way exists.
\<close>

datatype regex =
    Eps
  | Lit char
  | Opt regex
  | Plus "char \<Rightarrow> bool"
  | Seq regex regex

fun rests :: "regex \<Rightarrow> string \<Rightarrow> string list" where
  "rests Eps s = [s]"
| "rests (Lit c) s = (case s of [] \<Rightarrow> [] | x # xs \<Rightarrow> if x = c then [xs] else [])"
| "rests (Opt r) s = rests r s @ [s]"
| "rests (Plus cls) s = map (\<lambda>n. drop n s) (rev [1..<Suc (length (takeWhile cls s))])"
| "rests (Seq r1 r2) s = concat (map (rests r2) (rests r1 s))"

text \<open>\<^verbatim>\<open>pattern.match(s)\<close> anchors at the start of \<open>s\<close> (not at its end);
  \<^verbatim>\<open>re.search(pattern, s)\<close> tries every position.\<close>

definition re_match :: "regex \<Rightarrow> string \<Rightarrow> bool" where
  "re_match r s = (rests r s \<noteq> [])"

definition re_search :: "regex \<Rightarrow> string \<Rightarrow> bool" where
  "re_search r s = list_ex (\<lambda>n. re_match r (drop n s)) [0..<Suc (length s)]"

text \<open>A pattern that is a plain text.\<close>

fun literal :: "string \<Rightarrow> regex" where
  "literal [] = Eps"
| "literal [c] = Lit c"
| "literal (c # cs) = Seq (Lit c) (literal cs)"

definition is_lower :: "char \<Rightarrow> bool" where
  "is_lower c = (c \<in> set ''abcdefghijklmnopqrstuvwxyz'')"

definition is_upper :: "char \<Rightarrow> bool" where
  "is_upper c = (c \<in> set ''ABCDEFGHIJKLMNOPQRSTUVWXYZ'')"

definition is_digit :: "char \<Rightarrow> bool" where
  "is_digit c = (c \<in> set ''0123456789'')"

text \<open>The class \<^verbatim>\<open>[-a-zA-Z0-9.`?{}]\<close>.\<close>

definition local_char :: "char \<Rightarrow> bool" where
  "local_char c = (c = CHR ''-'' \<or> is_lower c \<or> is_upper c \<or> is_digit c \<or> c \<in> set ''.`?{}'')"

text \<open>The class \<^verbatim>\<open>[-a-zA-Z0-9.]\<close>.\<close>

definition domain_char :: "char \<Rightarrow> bool" where
  "domain_char c = (c = CHR ''-'' \<or> is_lower c \<or> is_upper c \<or> is_digit c \<or> c = CHR ''.'')"

text \<open>
  Line 27:
  \<^verbatim>\<open>_EMAIL_PATTERN = re.compile(r"\"?([-a-zA-Z0-9.`?{}]+@[-a-zA-Z0-9.]+\.\w+)\"?")\<close>.
  The class \<^verbatim>\<open>\w\<close> is not written out in the module: it is the table of word characters of
  the interpreter that compiles the pattern (letters, digits and the underscore of ASCII for
  a byte string of Python 2; every alphanumeric character of Unicode and the underscore for
  a text of Python 3). The pattern takes it as the parameter \<open>word\<close>.
\<close>

definition EMAIL_PATTERN :: "(char \<Rightarrow> bool) \<Rightarrow> regex" where
  "EMAIL_PATTERN word =
     Seq (Opt (Lit (CHR 0x22)))
       (Seq (Plus local_char)
         (Seq (Lit CHR ''@'')
           (Seq (Plus domain_char)
             (Seq (Lit CHR ''.'')
               (Seq (Plus word) (Opt (Lit (CHR 0x22))))))))"

text \<open>Line 312: \<^verbatim>\<open>r'The owner of a file cannot be removed\.'\<close>.\<close>

definition OWNER_PATTERN :: regex where
  "OWNER_PATTERN = literal ''The owner of a file cannot be removed.''"

section \<open>The wrapper, requests and the world outside\<close>

text \<open>The fields of \<^verbatim>\<open>DriveAPIWrapper\<close> that its methods read (lines 50 and 53).\<close>

record DriveAPIWrapper =
  team_drive_id :: "string option"
  retries :: int

text \<open>\<^verbatim>\<open>__init__\<close>, \<^verbatim>\<open>enable_team_drive\<close> and \<^verbatim>\<open>disable_team_drive\<close>.\<close>

definition init :: DriveAPIWrapper where
  "init = \<lparr>team_drive_id = None, retries = 2\<rparr>"

definition enable_team_drive :: "DriveAPIWrapper \<Rightarrow> string \<Rightarrow> DriveAPIWrapper" where
  "enable_team_drive self tid = self\<lparr>team_drive_id := Some tid\<rparr>"

definition disable_team_drive :: "DriveAPIWrapper \<Rightarrow> DriveAPIWrapper" where
  "disable_team_drive self = self\<lparr>team_drive_id := None\<rparr>"

text \<open>\<^verbatim>\<open>self.team_drive_id\<close> as a condition: \<^verbatim>\<open>None\<close> and the empty string are false.\<close>

definition team_drive_active :: "DriveAPIWrapper \<Rightarrow> bool" where
  "team_drive_active self = (case team_drive_id self of None \<Rightarrow> False | Some tid \<Rightarrow> tid \<noteq> [])"

text \<open>
  A request object of the client library: the endpoint it was built for, its keyword
  parameters and, for \<^verbatim>\<open>permissions().create\<close>, the body.
\<close>

datatype endpoint =
    Files_get
  | Files_list
  | Files_delete
  | Files_update
  | Files_export
  | Permissions_create
  | Permissions_list
  | Permissions_delete

record request =
  endpoint :: endpoint
  params :: pydict
  body :: "pydict option"

text \<open>One chunk of a download: the bytes written to the file and the \<open>done\<close> flag.\<close>

record chunk =
  chunk_data :: string
  chunk_done :: bool

text \<open>
  Everything outside the wrapper is explicit state. The provider is scripted: it answers
  the \<open>k\<close>-th executed request with \<open>responses k\<close> and the \<open>k\<close>-th chunk request with
  \<open>chunks k\<close>, each an exception or a value. \<open>calls\<close> and \<open>chunk_calls\<close> log the requests
  sent so far, \<open>files\<close> is the local file system, \<open>handles\<close> lists, by path and in the
  order of opening, the file handles that have been opened and that no code has closed,
  \<open>writable\<close> says which paths can be opened for writing, and \<open>logged\<close> holds the records
  of \<^verbatim>\<open>self.logger\<close> (level, message, arguments). What the interpreter does to an object
  that nothing refers to any more, such as closing the file of a handle that was a local
  variable of a method that has returned, is not part of the model.
\<close>

record world =
  responses :: "nat \<Rightarrow> raised + pydict"
  calls :: "request list"
  chunks :: "nat \<Rightarrow> raised + chunk"
  chunk_calls :: "request list"
  files :: "string \<Rightarrow> string option"
  handles :: "string list"
  writable :: "string \<Rightarrow> bool"
  logged :: "(string \<times> string \<times> pyval list) list"

text \<open>\<^verbatim>\<open>request.execute()\<close>: one remote call.\<close>

definition execute :: "request \<Rightarrow> world \<Rightarrow> (raised + pydict) \<times> world" where
  "execute request w = (responses w (length (calls w)), w\<lparr>calls := calls w @ [request]\<rparr>)"

section \<open>The request executor\<close>

text \<open>
  Lines 325 to 335. The \<^verbatim>\<open>for\<close> loop over \<^verbatim>\<open>range(self.retries)\<close> is the recursion on
  \<open>i\<close>; leaving the loop without a \<^verbatim>\<open>return\<close> ends the method, which then returns
  \<^verbatim>\<open>None\<close>.
\<close>

function execute_request_from ::
  "DriveAPIWrapper \<Rightarrow> request \<Rightarrow> int \<Rightarrow> world \<Rightarrow> (error + pydict option) \<times> world" where
  "execute_request_from self request i w =
     (if i < retries self then
        (case execute request w of
           (Inr response, w') \<Rightarrow> (Inr (Some response), w')
         | (Inl e, w') \<Rightarrow>
             if str_find (exc_repr e) ''timed out'' = - 1 then (Inl (Raised e), w')
             else if i = retries self - 1 then
               (Inl (RequestError (''Timeout : '' @ exc_repr e)), w')
             else execute_request_from self request (i + 1) w')
      else (Inr None, w))"
  by pat_completeness auto
termination
  by (relation "measure (\<lambda>(self, request, i, w). nat (retries self - i))") auto

declare execute_request_from.simps [simp del]

definition execute_request ::
  "DriveAPIWrapper \<Rightarrow> request \<Rightarrow> world \<Rightarrow> (error + pydict option) \<times> world" where
  "execute_request self request w = execute_request_from self request 0 w"

text \<open>
  The three methods that send one request and no more: \<^verbatim>\<open>get_update_time\<close> (line 65), which
  subscripts the response, and \<^verbatim>\<open>delete\<close> (line 127) and \<^verbatim>\<open>move_file\<close> (lines 141 and 142),
  which drop it.
\<close>

definition get_update_time :: "DriveAPIWrapper \<Rightarrow> string \<Rightarrow> world \<Rightarrow> (error + pyval) \<times> world" where
  "get_update_time self file_id w =
     (case execute_request self
             \<lparr>endpoint = Files_get,
              params = [''fileId'' \<mapsto> PStr file_id, ''fields'' \<mapsto> PStr ''modifiedTime''],
              body = None\<rparr> w of
        (Inl e, w') \<Rightarrow> (Inl e, w')
      | (Inr response, w') \<Rightarrow> (subscript response ''modifiedTime'', w'))"

definition delete :: "DriveAPIWrapper \<Rightarrow> string \<Rightarrow> pydict \<Rightarrow> world \<Rightarrow> (error + unit) \<times> world" where
  "delete self file_id kwargs w =
     (case duplicate_keyword [''fileId''] kwargs of
        Some k \<Rightarrow> (Inl (multiple_values k), w)
      | None \<Rightarrow>
          (case execute_request self
                  \<lparr>endpoint = Files_delete, params = kwargs(''fileId'' \<mapsto> PStr file_id),
                   body = None\<rparr> w of
             (Inl e, w') \<Rightarrow> (Inl e, w')
           | (Inr response, w') \<Rightarrow> (Inr (), w')))"

definition move_file ::
  "DriveAPIWrapper \<Rightarrow> string \<Rightarrow> string \<Rightarrow> string \<Rightarrow> pydict \<Rightarrow> world \<Rightarrow>
     (error + unit) \<times> world" where
  "move_file self file_id old_folder new_folder kwargs w =
     (case duplicate_keyword [''fileId'', ''removeParents'', ''addParents''] kwargs of
        Some k \<Rightarrow> (Inl (multiple_values k), w)
      | None \<Rightarrow>
          (case execute_request self
                  \<lparr>endpoint = Files_update,
                   params = kwargs(''fileId'' \<mapsto> PStr file_id,
                                   ''removeParents'' \<mapsto> PStr old_folder,
                                   ''addParents'' \<mapsto> PStr new_folder),
                   body = None\<rparr> w of
             (Inl e, w') \<Rightarrow> (Inl e, w')
           | (Inr response, w') \<Rightarrow> (Inr (), w')))"

section \<open>Listing files and permissions\<close>

text \<open>
  Lines 81 to 84 of \<^verbatim>\<open>list\<close>: the \<^verbatim>\<open>while\<close> loop over the pages. The loop runs as long as
  the provider sends continuation tokens, so it need not end: \<open>None\<close> is the run that never
  leaves the loop. On leaving it the loop hands back \<open>result\<close>, \<open>kwargs\<close> and the last
  \<open>response\<close>.
\<close>

partial_function (option) list_while ::
  "DriveAPIWrapper \<Rightarrow> pydict \<Rightarrow> pyval list \<Rightarrow> pydict \<Rightarrow> world \<Rightarrow>
     ((error + pyval list \<times> pydict \<times> pydict) \<times> world) option" where
  "list_while self kwargs result response w =
     (case response ''nextPageToken'' of
        None \<Rightarrow> Some (Inr (result, kwargs, response), w)
      | Some token \<Rightarrow>
          (case execute_request self
                  \<lparr>endpoint = Files_list, params = kwargs(''pageToken'' \<mapsto> token), body = None\<rparr> w of
             (Inl e, w') \<Rightarrow> Some (Inl e, w')
           | (Inr response', w') \<Rightarrow>
               (case list_extend result response' ''files'' of
                  Inl e \<Rightarrow> Some (Inl e, w')
                | Inr result' \<Rightarrow>
                    (case response' of
                       None \<Rightarrow> Some (Inl (TypeError ''argument of type NoneType is not iterable''), w')
                     | Some r \<Rightarrow> list_while self (kwargs(''pageToken'' \<mapsto> token)) result' r w'))))"

definition incomplete_search_warning :: string where
  "incomplete_search_warning =
     ''Not all files in the corpora %s were searched. As a result '' @
     ''the response might be incomplete.''"

text \<open>\<^verbatim>\<open>list\<close> (lines 78 to 89); \<open>kwargs\<close> is the method's own dictionary of keyword arguments.\<close>

definition list_files ::
  "DriveAPIWrapper \<Rightarrow> pydict \<Rightarrow> world \<Rightarrow> ((error + pyval list) \<times> world) option" where
  "list_files self kwargs w =
     (case execute_request self \<lparr>endpoint = Files_list, params = kwargs, body = None\<rparr> w of
        (Inl e, w1) \<Rightarrow> Some (Inl e, w1)
      | (Inr response, w1) \<Rightarrow>
          (case list_extend [] response ''files'' of
             Inl e \<Rightarrow> Some (Inl e, w1)
           | Inr result \<Rightarrow>
               (case response of
                  None \<Rightarrow> Some (Inl (TypeError ''argument of type NoneType is not iterable''), w1)
                | Some r \<Rightarrow>
                    (case list_while self kwargs result r w1 of
                       None \<Rightarrow> None
                     | Some (Inl e, w2) \<Rightarrow> Some (Inl e, w2)
                     | Some (Inr (result', kwargs', response'), w2) \<Rightarrow>
                         if (case response' ''incompleteSearch'' of
                               None \<Rightarrow> False | Some v \<Rightarrow> truthy v)
                         then
                           (case kwargs' ''corpora'' of
                              None \<Rightarrow> Some (Inl (KeyError ''corpora''), w2)
                            | Some corpora \<Rightarrow>
                                Some (Inr result',
                                  w2\<lparr>logged := logged w2 @
                                    [(''WARNING'', incomplete_search_warning, [corpora])]\<rparr>))
                         else Some (Inr result', w2)))))"

text \<open>\<^verbatim>\<open>spreadsheet_metadata\<close> (lines 100 to 113).\<close>

definition spreadsheet_mime_type_query :: string where
  "spreadsheet_mime_type_query = ''mimeType='application/vnd.google-apps.spreadsheet'' @ [CHR 0x27]"

definition spreadsheet_metadata ::
  "DriveAPIWrapper \<Rightarrow> string \<Rightarrow> world \<Rightarrow> ((error + pyval list) \<times> world) option" where
  "spreadsheet_metadata self query w =
     (let query' = (if query \<noteq> [] then query @ '' and '' @ spreadsheet_mime_type_query
                    else spreadsheet_mime_type_query)
      in if team_drive_active self then
           list_files self
             [''corpora'' \<mapsto> PStr ''teamDrive'',
              ''teamDriveId'' \<mapsto> (case team_drive_id self of None \<Rightarrow> PNone | Some t \<Rightarrow> PStr t),
              ''supportsTeamDrives'' \<mapsto> PBool True,
              ''includeTeamDriveItems'' \<mapsto> PBool True,
              ''fields'' \<mapsto> PStr ''files(id, name, parents)'',
              ''q'' \<mapsto> PStr query'] w
         else
           list_files self
             [''fields'' \<mapsto> PStr ''files(id, name, parents)'', ''q'' \<mapsto> PStr query'] w)"

text \<open>
  Lines 286 to 289 of \<^verbatim>\<open>list_permissions\<close>. Here the token is written out as the keyword
  \<^verbatim>\<open>pageToken\<close> next to \<^verbatim>\<open>**kwargs\<close>, and \<open>kwargs\<close> itself is not changed.
\<close>

partial_function (option) list_permissions_while ::
  "DriveAPIWrapper \<Rightarrow> string \<Rightarrow> pydict \<Rightarrow> pyval list \<Rightarrow> pydict \<Rightarrow> world \<Rightarrow>
     ((error + pyval list) \<times> world) option" where
  "list_permissions_while self file_id kwargs permissions response w =
     (case response ''nextPageToken'' of
        None \<Rightarrow> Some (Inr permissions, w)
      | Some token \<Rightarrow>
          (case duplicate_keyword [''fileId'', ''pageToken''] kwargs of
             Some k \<Rightarrow> Some (Inl (multiple_values k), w)
           | None \<Rightarrow>
               (case execute_request self
                       \<lparr>endpoint = Permissions_list,
                        params = kwargs(''fileId'' \<mapsto> PStr file_id, ''pageToken'' \<mapsto> token),
                        body = None\<rparr> w of
                  (Inl e, w') \<Rightarrow> Some (Inl e, w')
                | (Inr response', w') \<Rightarrow>
                    (case list_extend permissions response' ''permissions'' of
                       Inl e \<Rightarrow> Some (Inl e, w')
                     | Inr permissions' \<Rightarrow>
                         (case response' of
                            None \<Rightarrow>
                              Some (Inl (TypeError ''argument of type NoneType is not iterable''), w')
                          | Some r \<Rightarrow>
                              list_permissions_while self file_id kwargs permissions' r w')))))"

text \<open>\<^verbatim>\<open>list_permissions\<close> (lines 276 to 290).\<close>

definition list_permissions ::
  "DriveAPIWrapper \<Rightarrow> string \<Rightarrow> pydict \<Rightarrow> world \<Rightarrow> ((error + pyval list) \<times> world) option" where
  "list_permissions self file_id kwargs0 w =
     (let kwargs1 = (if kwargs0 ''supportsTeamDrives'' = None \<and> team_drive_active self
                     then kwargs0(''supportsTeamDrives'' \<mapsto> PBool True) else kwargs0);
          kwargs = (if kwargs1 ''fields'' = None then kwargs1(''fields'' \<mapsto> PStr ''*'') else kwargs1)
      in case duplicate_keyword [''fileId''] kwargs of
           Some k \<Rightarrow> Some (Inl (multiple_values k), w)
         | None \<Rightarrow>
             (case execute_request self
                     \<lparr>endpoint = Permissions_list, params = kwargs(''fileId'' \<mapsto> PStr file_id),
                      body = None\<rparr> w of
                (Inl e, w1) \<Rightarrow> Some (Inl e, w1)
              | (Inr response, w1) \<Rightarrow>
                  (case list_extend [] response ''permissions'' of
                     Inl e \<Rightarrow> Some (Inl e, w1)
                   | Inr permissions \<Rightarrow>
                       (case response of
                          None \<Rightarrow>
                            Some (Inl (TypeError ''argument of type NoneType is not iterable''), w1)
                        | Some r \<Rightarrow> list_permissions_while self file_id kwargs permissions r w1))))"

section \<open>Permissions\<close>

text \<open>Lines 24 and 25.\<close>

definition PERMISSION_ROLES :: "string list" where
  "PERMISSION_ROLES = [''organizer'', ''owner'', ''writer'', ''commenter'', ''reader'']"

definition PERMISSION_TYPES :: "string list" where
  "PERMISSION_TYPES = [''user'', ''group'', ''domain'', ''anyone'']"

text \<open>\<^verbatim>\<open>str\<close> of a list of plain strings, as in \<^verbatim>\<open>str(PERMISSION_ROLES)\<close>.\<close>

fun join :: "string \<Rightarrow> string list \<Rightarrow> string" where
  "join sep [] = []"
| "join sep [x] = x"
| "join sep (x # y # ys) = x @ sep @ join sep (y # ys)"

definition str_list :: "string list \<Rightarrow> string" where
  "str_list xs = ''['' @ join '', '' (map (\<lambda>x. [CHR 0x27] @ x @ [CHR 0x27]) xs) @ '']''"

text \<open>
  The step \<^verbatim>\<open>if key in kwargs: body[key] = kwargs[key]; del kwargs[key]\<close>, which the method
  takes for \<^verbatim>\<open>domain\<close>, \<^verbatim>\<open>allowFileDiscovery\<close> and \<^verbatim>\<open>expirationTime\<close>.
\<close>

definition move_key :: "string \<Rightarrow> pydict \<times> pydict \<Rightarrow> pydict \<times> pydict" where
  "move_key key bk =
     (case snd bk key of
        None \<Rightarrow> bk
      | Some v \<Rightarrow> ((fst bk)(key \<mapsto> v), (snd bk)(key := None)))"

text \<open>
  \<^verbatim>\<open>create_permission\<close>, lines 228 to 261: the checks and the body. The result is the body
  and what is left of the keyword arguments, or the error raised. \<open>word\<close> is the
  interpreter's class \<^verbatim>\<open>\w\<close>, which the e-mail pattern needs.
\<close>

definition permission_body ::
  "(char \<Rightarrow> bool) \<Rightarrow> DriveAPIWrapper \<Rightarrow> string \<Rightarrow> string \<Rightarrow> pydict \<Rightarrow>
     error + pydict \<times> pydict" where
  "permission_body word self role type kwargs0 =
     (let kwargs = (if kwargs0 ''supportsTeamDrives'' = None \<and> team_drive_active self
                    then kwargs0(''supportsTeamDrives'' \<mapsto> PBool True) else kwargs0);
          request_body = [''kind'' \<mapsto> PStr ''drive#permission'', ''type'' \<mapsto> PStr type,
                  ''role'' \<mapsto> PStr role]
      in if kwargs ''emailAddress'' \<noteq> None \<and> kwargs ''domain'' \<noteq> None then
           Inl (InvalidArgumentValue
             ''A permission can only use emailAddress or domain. Do not specify both.'')
         else if role \<notin> set PERMISSION_ROLES then
           Inl (InvalidArgumentValue
             (''A permission role can only be one of '' @ str_list PERMISSION_ROLES @ ''.''))
         else if type \<notin> set PERMISSION_TYPES then
           Inl (InvalidArgumentValue
             (''A permission role can only be one of '' @ str_list PERMISSION_TYPES @ ''.''))
         else
           (case kwargs ''emailAddress'' of
              Some (PStr email) \<Rightarrow>
                if re_match (EMAIL_PATTERN word) email then
                  Inr (move_key ''expirationTime'' (move_key ''allowFileDiscovery''
                    (request_body(''emailAddress'' \<mapsto> PStr email), kwargs(''emailAddress'' := None))))
                else
                  Inl (InvalidArgumentValue
                    (''The provided e-mail address doesn't have a valid format: '' @ email @ ''.''))
            | Some _ \<Rightarrow> Inl (TypeError ''expected string or bytes-like object'')
            | None \<Rightarrow>
                Inr (move_key ''expirationTime'' (move_key ''allowFileDiscovery''
                  (move_key ''domain'' (request_body, kwargs))))))"

text \<open>\<^verbatim>\<open>create_permission\<close>: the checks, then line 263, the one remote call.\<close>

definition create_permission ::
  "(char \<Rightarrow> bool) \<Rightarrow> DriveAPIWrapper \<Rightarrow> string \<Rightarrow> string \<Rightarrow> string \<Rightarrow> pydict \<Rightarrow>
     world \<Rightarrow> (error + pydict option) \<times> world" where
  "create_permission word self file_id role type kwargs0 w =
     (case permission_body word self role type kwargs0 of
        Inl e \<Rightarrow> (Inl e, w)
      | Inr (request_body, kwargs) \<Rightarrow>
          (case duplicate_keyword [''fileId'', ''body''] kwargs of
             Some k \<Rightarrow> (Inl (multiple_values k), w)
           | None \<Rightarrow>
               execute_request self
                 \<lparr>endpoint = Permissions_create, params = kwargs(''fileId'' \<mapsto> PStr file_id),
                  body = Some request_body\<rparr> w))"

text \<open>
  \<^verbatim>\<open>delete_permission\<close> (lines 305 to 315). The \<^verbatim>\<open>except\<close> clause takes instances of
  \<^verbatim>\<open>HttpError\<close> only; it logs \<^verbatim>\<open>str(error)\<close> and searches it for the provider's message.
\<close>

definition delete_permission ::
  "DriveAPIWrapper \<Rightarrow> string \<Rightarrow> string \<Rightarrow> pydict \<Rightarrow> world \<Rightarrow> (error + unit) \<times> world" where
  "delete_permission self file_id permission_id kwargs0 w =
     (let kwargs = (if kwargs0 ''supportsTeamDrives'' = None \<and> team_drive_active self
                    then kwargs0(''supportsTeamDrives'' \<mapsto> PBool True) else kwargs0)
      in case duplicate_keyword [''fileId'', ''permissionId''] kwargs of
           Some k \<Rightarrow> (Inl (multiple_values k), w)
         | None \<Rightarrow>
             (case execute_request self
                     \<lparr>endpoint = Permissions_delete,
                      params = kwargs(''fileId'' \<mapsto> PStr file_id,
                                      ''permissionId'' \<mapsto> PStr permission_id),
                      body = None\<rparr> w of
                (Inr response, w') \<Rightarrow> (Inr (), w')
              | (Inl (Raised error), w') \<Rightarrow>
                  if is_HttpError error then
                    (if re_search OWNER_PATTERN (exc_str error)
                     then Inl (CannotRemoveOwnerError ''The owner of a file cannot be removed!'')
                     else Inl (Raised error),
                     w'\<lparr>logged := logged w' @ [(''ERROR'', exc_str error, [])]\<rparr>)
                  else (Inl (Raised error), w')
              | (Inl e, w') \<Rightarrow> (Inl e, w')))"

section \<open>Export\<close>

text \<open>
  Modelled from the spec: the classes \<^verbatim>\<open>Spreadsheet\<close> and \<^verbatim>\<open>Worksheet\<close>
  (\<^verbatim>\<open>pygsheets.spreadsheet\<close>, \<^verbatim>\<open>pygsheets.worksheet\<close>) are not among the source files. The
  spec's export target is a document or a single sheet within one, and a sheet has a position
  in its document. \<^verbatim>\<open>export\<close> reads \<^verbatim>\<open>sheet.id\<close>, \<^verbatim>\<open>sheet.index\<close> and
  \<^verbatim>\<open>sheet.spreadsheet.id\<close> of a worksheet and assigns \<^verbatim>\<open>sheet.index\<close>; of a spreadsheet it
  reads \<^verbatim>\<open>sheet.id\<close> and the sheets, through \<^verbatim>\<open>sheet.worksheets()\<close> and by iteration.
\<close>

record Worksheet =
  sheet_id :: int
  index :: int
  parent_id :: string

record Spreadsheet =
  document_id :: string
  worksheets :: "Worksheet list"

datatype sheet = ASpreadsheet Spreadsheet | AWorksheet Worksheet

text \<open>
  Modelled from the spec: the enumeration \<^verbatim>\<open>ExportType\<close> (\<^verbatim>\<open>pygsheets.custom_types\<close>) is not
  among the source files. The spec's export format pair is a MIME type and a file extension;
  the value of a member writes the pair as \<^verbatim>\<open>mime:extension\<close>, which line 168 splits.
\<close>

datatype ExportType = XLS | ODT | PDF | CSV | TSV | HTML

fun ExportType_value :: "ExportType \<Rightarrow> string" where
  "ExportType_value XLS =
     ''application/vnd.openxmlformats-officedocument.spreadsheetml.sheet:.xls''"
| "ExportType_value ODT = ''application/x-vnd.oasis.opendocument.spreadsheet:.odt''"
| "ExportType_value PDF = ''application/pdf:.pdf''"
| "ExportType_value CSV = ''text/csv:.csv''"
| "ExportType_value TSV = ''text/tab-separated-values:.tsv''"
| "ExportType_value HTML = ''application/zip:.zip''"

text \<open>The argument \<^verbatim>\<open>file_format\<close>: a member of the enumeration, or a plain text, which
  \<^verbatim>\<open>getattr(file_format, 'value', file_format)\<close> takes as it is.\<close>

datatype file_format = Member ExportType | Plain string

fun format_value :: "file_format \<Rightarrow> string" where
  "format_value (Member m) = ExportType_value m"
| "format_value (Plain s) = s"

text \<open>\<^verbatim>\<open>_export_request\<close> (line 146), called without further keywords.\<close>

definition export_request :: "string \<Rightarrow> string \<Rightarrow> request" where
  "export_request file_id mime_type =
     \<lparr>endpoint = Files_export,
      params = [''fileId'' \<mapsto> PStr file_id, ''mimeType'' \<mapsto> PStr mime_type], body = None\<rparr>"

text \<open>
  \<^verbatim>\<open>io.FileIO(name, 'wb')\<close>: the file is created or emptied and a handle on it is open from
  then on; a path that cannot be opened raises \<^verbatim>\<open>OSError\<close>. Nothing in the module closes a
  handle, so no operation here removes one from \<open>handles\<close>.
\<close>

definition FileIO_wb :: "string \<Rightarrow> world \<Rightarrow> (error + unit) \<times> world" where
  "FileIO_wb name w =
     (if writable w name
      then (Inr (), w\<lparr>files := (files w)(name \<mapsto> []), handles := handles w @ [name]\<rparr>)
      else (Inl (OSError name), w))"

text \<open>
  \<^verbatim>\<open>downloader.next_chunk()\<close> of the client library: one chunk request; the bytes of the
  answer are appended to the file behind the handle and the \<open>done\<close> flag is returned.
\<close>

definition next_chunk :: "request \<Rightarrow> string \<Rightarrow> world \<Rightarrow> (raised + bool) \<times> world" where
  "next_chunk request name w =
     (case chunks w (length (chunk_calls w)) of
        Inl e \<Rightarrow> (Inl e, w\<lparr>chunk_calls := chunk_calls w @ [request]\<rparr>)
      | Inr c \<Rightarrow>
          (Inr (chunk_done c),
           w\<lparr>chunk_calls := chunk_calls w @ [request],
             files := (files w)(name \<mapsto>
               (case files w name of None \<Rightarrow> [] | Some old \<Rightarrow> old) @ chunk_data c)\<rparr>))"

text \<open>
  Lines 187 to 189, the loop \<^verbatim>\<open>while done is False\<close>. It runs until the provider reports
  the download as done, so it need not end: \<open>None\<close> is the run that never leaves the loop.
  The calls of \<^verbatim>\<open>logging.info\<close> go to the root logger and change nothing the wrapper reads;
  they are left out.
\<close>

partial_function (option) download_while ::
  "bool \<Rightarrow> request \<Rightarrow> string \<Rightarrow> world \<Rightarrow> ((error + unit) \<times> world) option" where
  "download_while done request name w =
     (if \<not> done then
        (case next_chunk request name w of
           (Inl e, w') \<Rightarrow> Some (Inl (Raised e), w')
         | (Inr done', w') \<Rightarrow> download_while done' request name w')
      else Some (Inr (), w))"

text \<open>Lines 184 to 189: the file is opened, then filled chunk by chunk.\<close>

definition download :: "request \<Rightarrow> string \<Rightarrow> world \<Rightarrow> ((error + unit) \<times> world) option" where
  "download request name w =
     (case FileIO_wb name w of
        (Inl e, w1) \<Rightarrow> Some (Inl e, w1)
      | (Inr u, w1) \<Rightarrow> download_while False request name w1)"

text \<open>\<^verbatim>\<open>mime_type, file_extension = ... .split(':')\<close> (line 168): exactly two parts, or
  \<^verbatim>\<open>ValueError\<close>.\<close>

definition split_format :: "file_format \<Rightarrow> error + string \<times> string" where
  "split_format file_format =
     (case split_on CHR '':'' (format_value file_format) of
        [mime_type, file_extension] \<Rightarrow> Inr (mime_type, file_extension)
      | _ \<Rightarrow> Inl (ValueError ''wrong number of values to unpack''))"

text \<open>
  \<^verbatim>\<open>export\<close> of a worksheet: line 168, the branch of lines 177 to 180, the download and the
  restoring of lines 192 and 193. The worksheet is returned as the call leaves it.
\<close>

definition export_worksheet ::
  "Worksheet \<Rightarrow> file_format \<Rightarrow> string \<Rightarrow> string option \<Rightarrow> world \<Rightarrow>
     ((error + unit) \<times> Worksheet \<times> world) option" where
  "export_worksheet sheet file_format path filename w =
     (case split_format file_format of
        Inl e \<Rightarrow> Some (Inl e, sheet, w)
      | Inr (mime_type, file_extension) \<Rightarrow>
          (let tmp = Some (index sheet);
               sheet0 = sheet\<lparr>index := 0\<rparr>;
               request = export_request (parent_id sheet0) mime_type;
               file_name = (case filename of
                              None \<Rightarrow> str_int (sheet_id sheet0) @ file_extension
                            | Some f \<Rightarrow> f @ file_extension)
           in case download request (path @ file_name) w of
                None \<Rightarrow> None
              | Some (Inl e, w') \<Rightarrow> Some (Inl e, sheet0, w')
              | Some (Inr u, w') \<Rightarrow>
                  Some (Inr (),
                        (case tmp of None \<Rightarrow> sheet0 | Some i \<Rightarrow> sheet0\<lparr>index := i\<rparr>), w')))"

text \<open>\<^verbatim>\<open>export\<close> of a whole document in one file: line 168, line 176 and the download.\<close>

definition export_document ::
  "Spreadsheet \<Rightarrow> file_format \<Rightarrow> string \<Rightarrow> string option \<Rightarrow> world \<Rightarrow>
     ((error + unit) \<times> world) option" where
  "export_document sheet file_format path filename w =
     (case split_format file_format of
        Inl e \<Rightarrow> Some (Inl e, w)
      | Inr (mime_type, file_extension) \<Rightarrow>
          (let request = export_request (document_id sheet) mime_type;
               file_name = (case filename of
                              None \<Rightarrow> document_id sheet @ file_extension
                            | Some f \<Rightarrow> f @ file_extension)
           in download request (path @ file_name) w))"

text \<open>
  Lines 172 and 173, the loop over the worksheets. Each turn first evaluates
  \<^verbatim>\<open>filename + str(worksheet.index)\<close>, which raises \<^verbatim>\<open>TypeError\<close> when \<open>filename\<close> is
  \<^verbatim>\<open>None\<close>, and then calls \<^verbatim>\<open>export\<close> on the worksheet; that call takes the worksheet
  branch and never comes back to this loop.
\<close>

fun export_each ::
  "file_format \<Rightarrow> string \<Rightarrow> string option \<Rightarrow> Worksheet list \<Rightarrow> world \<Rightarrow>
     ((error + unit) \<times> Worksheet list \<times> world) option" where
  "export_each file_format path filename [] w = Some (Inr (), [], w)"
| "export_each file_format path filename (worksheet # rest) w =
     (case filename of
        None \<Rightarrow>
          Some (Inl (TypeError ''unsupported operand type(s) for +: NoneType and str''),
                worksheet # rest, w)
      | Some f \<Rightarrow>
          (case export_worksheet worksheet file_format path
                  (Some (f @ str_int (index worksheet))) w of
             None \<Rightarrow> None
           | Some (Inl e, worksheet', w') \<Rightarrow> Some (Inl e, worksheet' # rest, w')
           | Some (Inr u, worksheet', w') \<Rightarrow>
               (case export_each file_format path filename rest w' of
                  None \<Rightarrow> None
                | Some (r, rest', w'') \<Rightarrow> Some (r, worksheet' # rest', w''))))"

text \<open>\<^verbatim>\<open>export\<close> (lines 166 to 193). The sheet is returned as the call leaves it.\<close>

definition export ::
  "DriveAPIWrapper \<Rightarrow> sheet \<Rightarrow> file_format \<Rightarrow> string \<Rightarrow> string option \<Rightarrow> world \<Rightarrow>
     ((error + unit) \<times> sheet \<times> world) option" where
  "export self sheet file_format path filename w =
     (case sheet of
        ASpreadsheet s \<Rightarrow>
          (case split_format file_format of
             Inl e \<Rightarrow> Some (Inl e, sheet, w)
           | Inr (mime_type, file_extension) \<Rightarrow>
               if (file_format = Member CSV \<or> file_format = Member TSV) \<and>
                  length (worksheets s) > 1
               then
                 (case export_each file_format path filename (worksheets s) w of
                    None \<Rightarrow> None
                  | Some (r, worksheets', w') \<Rightarrow>
                      Some (r, ASpreadsheet (s\<lparr>worksheets := worksheets'\<rparr>), w'))
               else
                 (case export_document s file_format path filename w of
                    None \<Rightarrow> None
                  | Some (r, w') \<Rightarrow> Some (r, sheet, w')))
      | AWorksheet ws \<Rightarrow>
          (case export_worksheet ws file_format path filename w of
             None \<Rightarrow> None
           | Some (r, ws', w') \<Rightarrow> Some (r, AWorksheet ws', w')))"

section \<open>Sample inputs\<close>

text \<open>A socket timeout, as the client library raises it, and a provider rejection.\<close>

definition socket_timeout :: raised where
  "socket_timeout =
     \<lparr>is_HttpError = False, exc_repr = ''timeout('timed out')'', exc_str = ''timed out''\<rparr>"

definition http_404 :: raised where
  "http_404 =
     \<lparr>is_HttpError = True, exc_repr = ''<HttpError 404 \"File not found\">'',
      exc_str = ''<HttpError 404 \"File not found\">''\<rparr>"

text \<open>A world with nothing sent, logged, written or opened, whose provider follows the
  scripts \<open>rs\<close> and \<open>cs\<close>.\<close>

definition fresh :: "(nat \<Rightarrow> raised + pydict) \<Rightarrow> (nat \<Rightarrow> raised + chunk) \<Rightarrow> world" where
  "fresh rs cs =
     \<lparr>responses = rs, calls = [], chunks = cs, chunk_calls = [], files = Map.empty,
      handles = [], writable = (\<lambda>p. True), logged = []\<rparr>"

text \<open>Scripts: the listed outcomes in turn, then \<open>d\<close> for ever.\<close>

definition script :: "'a list \<Rightarrow> 'a \<Rightarrow> nat \<Rightarrow> 'a" where
  "script xs d k = (if k < length xs then xs ! k else d)"

definition no_chunks :: "nat \<Rightarrow> raised + chunk" where
  "no_chunks k = Inl http_404"

definition get_request :: request where
  "get_request = \<lparr>endpoint = Files_list, params = [''q'' \<mapsto> PStr ''x''], body = None\<rparr>"

definition one_file :: pydict where
  "one_file = [''files'' \<mapsto> PList [PStr ''a'']]"

text \<open>Pages of answers: one reporting an incomplete search, and two pages of permissions,
  the first with a continuation token.\<close>

definition incomplete_page :: pydict where
  "incomplete_page = [''files'' \<mapsto> PList [PStr ''a''], ''incompleteSearch'' \<mapsto> PBool True]"

definition first_page :: pydict where
  "first_page = [''permissions'' \<mapsto> PList [PStr ''p1''], ''nextPageToken'' \<mapsto> PStr ''t1'']"

definition last_page :: pydict where
  "last_page = [''permissions'' \<mapsto> PList [PStr ''p2'']]"

definition first_files :: pydict where
  "first_files = [''files'' \<mapsto> PList [PStr ''a''], ''nextPageToken'' \<mapsto> PStr ''t1'']"

definition last_files :: pydict where
  "last_files = [''files'' \<mapsto> PList [PStr ''b'']]"


text \<open>A world whose provider accepts every request with an empty answer.\<close>

definition accepting :: world where
  "accepting = fresh (\<lambda>k. Inr Map.empty) no_chunks"

text \<open>The class \<^verbatim>\<open>\w\<close> of an interpreter that knows the word characters of ASCII only.\<close>

definition ascii_word :: "char \<Rightarrow> bool" where
  "ascii_word c = (is_lower c \<or> is_upper c \<or> is_digit c \<or> c = CHR ''_'')"

text \<open>A class \<^verbatim>\<open>\w\<close> that holds, beyond ASCII, the letters \<open>U+00E9\<close> and \<open>U+00B5\<close>, which are
  word characters for Python 3; and an address that ends in the first of them.\<close>

definition wider_word :: "char \<Rightarrow> bool" where
  "wider_word c = (ascii_word c \<or> c = CHR 0xE9 \<or> c = CHR 0xB5)"

definition accented_address :: pydict where
  "accented_address = [''emailAddress'' \<mapsto> PStr (''ann@example.'' @ [CHR 0xE9])]"

text \<open>Keyword arguments naming a grantee: by a text that is no address, by an address, by
  both an address and a domain.\<close>

definition no_address :: pydict where
  "no_address = [''emailAddress'' \<mapsto> PStr ''ann.example.org'']"

definition address :: pydict where
  "address = [''emailAddress'' \<mapsto> PStr ''ann@example.org'']"



text \<open>A document of two worksheets, and downloads: one of two chunks, and one that fails
  after its first chunk.\<close>

definition first_sheet :: Worksheet where
  "first_sheet = \<lparr>sheet_id = 0, index = 0, parent_id = ''doc''\<rparr>"

definition second_sheet :: Worksheet where
  "second_sheet = \<lparr>sheet_id = 7, index = 1, parent_id = ''doc''\<rparr>"

definition document :: Spreadsheet where
  "document = \<lparr>document_id = ''doc'', worksheets = [first_sheet, second_sheet]\<rparr>"

definition two_chunks :: "nat \<Rightarrow> raised + chunk" where
  "two_chunks = script [Inr \<lparr>chunk_data = ''a,b'', chunk_done = False\<rparr>]
                  (Inr \<lparr>chunk_data = ''c'', chunk_done = True\<rparr>)"


definition one_chunk :: "nat \<Rightarrow> raised + chunk" where
  "one_chunk k = Inr \<lparr>chunk_data = ''x'', chunk_done = True\<rparr>"

definition csv_request :: request where
  "csv_request = export_request ''doc'' ''text/csv''"

definition last_files_incomplete :: pydict where
  "last_files_incomplete =
     [''files'' \<mapsto> PList [PStr ''b''], ''incompleteSearch'' \<mapsto> PBool True]"

section \<open>Strings and patterns\<close>

lemma find_from_sublist:
  "0 \<le> i \<Longrightarrow> (find_from sub s i = - 1) = (\<not> sublist sub s)"
proof (induction s arbitrary: i)
  case Nil
  then show ?case by auto
next
  case (Cons c cs)
  then show ?case by (auto simp: sublist_Cons_right)
qed

text \<open>\<^verbatim>\<open>s.find(sub) == -1\<close> says that \<open>sub\<close> does not occur in \<open>s\<close>.\<close>

lemma str_find_sublist: "(str_find s sub = - 1) = (\<not> sublist sub s)"
  by (simp add: str_find_def find_from_sublist)

section \<open>The request executor\<close>

lemma execute_request_from_done:
  "retries self \<le> i \<Longrightarrow> execute_request_from self request i w = (Inr None, w)"
  by (simp add: execute_request_from.simps)

lemma retry_success:
  assumes "\<forall>k<m. \<exists>e. responses w (length (calls w) + k) = Inl e \<and>
             sublist ''timed out'' (exc_repr e)"
    and "responses w (length (calls w) + m) = Inr v"
    and "i + int m < retries self"
  shows "execute_request_from self request i w =
    (Inr (Some v), w\<lparr>calls := calls w @ replicate (Suc m) request\<rparr>)"
  using assms
proof (induction m arbitrary: i w)
  case 0
  then show ?case
    by (subst execute_request_from.simps) (simp add: execute_def)
next
  case (Suc m)
  from Suc.prems(1) obtain e where e: "responses w (length (calls w)) = Inl e"
    "sublist ''timed out'' (exc_repr e)" by force
  let ?w = "w\<lparr>calls := calls w @ [request]\<rparr>"
  have "execute_request_from self request (i + 1) ?w =
    (Inr (Some v), ?w\<lparr>calls := calls ?w @ replicate (Suc m) request\<rparr>)"
  proof (rule Suc.IH)
    show "\<forall>k<m. \<exists>e. responses ?w (length (calls ?w) + k) = Inl e \<and>
            sublist ''timed out'' (exc_repr e)"
      using Suc.prems(1) by (auto dest: spec [where x = "Suc k" for k])
    show "responses ?w (length (calls ?w) + m) = Inr v" using Suc.prems(2) by simp
    show "i + 1 + int m < retries self" using Suc.prems(3) by simp
  qed
  moreover have "i < retries self" "i \<noteq> retries self - 1" using Suc.prems(3) by auto
  ultimately show ?case using e
    by (subst execute_request_from.simps)
      (simp add: execute_def str_find_sublist replicate_app_Cons_same)
qed

lemma retry_refused:
  assumes "\<forall>k<m. \<exists>e. responses w (length (calls w) + k) = Inl e \<and>
             sublist ''timed out'' (exc_repr e)"
    and "responses w (length (calls w) + m) = Inl e"
    and "\<not> sublist ''timed out'' (exc_repr e)"
    and "i + int m < retries self"
  shows "execute_request_from self request i w =
    (Inl (Raised e), w\<lparr>calls := calls w @ replicate (Suc m) request\<rparr>)"
  using assms
proof (induction m arbitrary: i w)
  case 0
  then show ?case
    by (subst execute_request_from.simps) (simp add: execute_def str_find_sublist)
next
  case (Suc m)
  from Suc.prems(1) obtain e' where e': "responses w (length (calls w)) = Inl e'"
    "sublist ''timed out'' (exc_repr e')" by force
  let ?w = "w\<lparr>calls := calls w @ [request]\<rparr>"
  have "execute_request_from self request (i + 1) ?w =
    (Inl (Raised e), ?w\<lparr>calls := calls ?w @ replicate (Suc m) request\<rparr>)"
  proof (rule Suc.IH)
    show "\<forall>k<m. \<exists>e. responses ?w (length (calls ?w) + k) = Inl e \<and>
            sublist ''timed out'' (exc_repr e)"
      using Suc.prems(1) by (auto dest: spec [where x = "Suc k" for k])
    show "responses ?w (length (calls ?w) + m) = Inl e" using Suc.prems(2) by simp
    show "\<not> sublist ''timed out'' (exc_repr e)" by (rule Suc.prems(3))
    show "i + 1 + int m < retries self" using Suc.prems(4) by simp
  qed
  moreover have "i < retries self" "i \<noteq> retries self - 1" using Suc.prems(4) by auto
  ultimately show ?case using e'
    by (subst execute_request_from.simps)
      (simp add: execute_def str_find_sublist replicate_app_Cons_same)
qed

lemma retry_exhausted:
  assumes "\<forall>k\<le>m. responses w (length (calls w) + k) = Inl (es k) \<and>
             sublist ''timed out'' (exc_repr (es k))"
    and "i + int m = retries self - 1"
  shows "execute_request_from self request i w =
    (Inl (RequestError (''Timeout : '' @ exc_repr (es m))),
     w\<lparr>calls := calls w @ replicate (Suc m) request\<rparr>)"
  using assms
proof (induction m arbitrary: i w es)
  case 0
  then show ?case
    by (subst execute_request_from.simps) (simp add: execute_def str_find_sublist)
next
  case (Suc m)
  have e: "responses w (length (calls w)) = Inl (es 0)"
    "sublist ''timed out'' (exc_repr (es 0))"
    using Suc.prems(1) by (auto dest: spec [where x = 0])
  let ?w = "w\<lparr>calls := calls w @ [request]\<rparr>"
  have "execute_request_from self request (i + 1) ?w =
    (Inl (RequestError (''Timeout : '' @ exc_repr ((\<lambda>k. es (Suc k)) m))),
     ?w\<lparr>calls := calls ?w @ replicate (Suc m) request\<rparr>)"
  proof (rule Suc.IH)
    show "\<forall>k\<le>m. responses ?w (length (calls ?w) + k) = Inl (es (Suc k)) \<and>
            sublist ''timed out'' (exc_repr (es (Suc k)))"
      using Suc.prems(1) by (auto dest: spec [where x = "Suc k" for k])
    show "i + 1 + int m = retries self - 1" using Suc.prems(2) by simp
  qed
  moreover have "i < retries self" "i \<noteq> retries self - 1" using Suc.prems(2) by auto
  ultimately show ?case using e
    by (subst execute_request_from.simps)
      (simp add: execute_def str_find_sublist replicate_app_Cons_same)
qed

text \<open>
  C1. With a positive retry budget \<open>n\<close>: a request that raises an error whose \<^verbatim>\<open>repr\<close>
  contains \<^verbatim>\<open>timed out\<close> on each of its first \<open>n - 1\<close> executions and succeeds on the next
  one gives its value; a request that raises such an error on each of its \<open>n\<close> executions
  fails with \<^verbatim>\<open>RequestError\<close>, whose text is \<^verbatim>\<open>Timeout : \<close> followed by the \<^verbatim>\<open>repr\<close> of the
  error of the last attempt; a request whose first execution raises an error without
  \<^verbatim>\<open>timed out\<close> in its \<^verbatim>\<open>repr\<close> fails with that very error. The log of calls shows the
  attempts: \<open>n\<close>, \<open>n\<close> and one.
\<close>

theorem execute_request_retry:
  assumes "0 < retries self"
  shows "((\<forall>k < nat (retries self) - 1. \<exists>e. responses w (length (calls w) + k) = Inl e \<and>
              sublist ''timed out'' (exc_repr e)) \<and>
          responses w (length (calls w) + (nat (retries self) - 1)) = Inr v \<longrightarrow>
          execute_request self request w =
            (Inr (Some v), w\<lparr>calls := calls w @ replicate (nat (retries self)) request\<rparr>))
       \<and> ((\<forall>k < nat (retries self). responses w (length (calls w) + k) = Inl (es k) \<and>
              sublist ''timed out'' (exc_repr (es k))) \<longrightarrow>
          execute_request self request w =
            (Inl (RequestError (''Timeout : '' @ exc_repr (es (nat (retries self) - 1)))),
             w\<lparr>calls := calls w @ replicate (nat (retries self)) request\<rparr>))
       \<and> (responses w (length (calls w)) = Inl e \<and> \<not> sublist ''timed out'' (exc_repr e) \<longrightarrow>
          execute_request self request w =
            (Inl (Raised e), w\<lparr>calls := calls w @ [request]\<rparr>))"
proof (intro conjI impI)
  obtain m where m: "nat (retries self) = Suc m" "int m = retries self - 1"
    using assms by (cases "nat (retries self)") auto
  {
    assume "(\<forall>k < nat (retries self) - 1. \<exists>e. responses w (length (calls w) + k) = Inl e \<and>
              sublist ''timed out'' (exc_repr e)) \<and>
          responses w (length (calls w) + (nat (retries self) - 1)) = Inr v"
    then show "execute_request self request w =
            (Inr (Some v), w\<lparr>calls := calls w @ replicate (nat (retries self)) request\<rparr>)"
      unfolding execute_request_def using m retry_success [of m w v 0 self request] by simp
  }
  {
    assume "\<forall>k < nat (retries self). responses w (length (calls w) + k) = Inl (es k) \<and>
              sublist ''timed out'' (exc_repr (es k))"
    then have "\<forall>k\<le>m. responses w (length (calls w) + k) = Inl (es k) \<and>
              sublist ''timed out'' (exc_repr (es k))"
      using m by (simp add: less_Suc_eq_le)
    then show "execute_request self request w =
            (Inl (RequestError (''Timeout : '' @ exc_repr (es (nat (retries self) - 1)))),
             w\<lparr>calls := calls w @ replicate (nat (retries self)) request\<rparr>)"
      unfolding execute_request_def using m retry_exhausted [of m w es 0 self request] by simp
  }
  {
    assume "responses w (length (calls w)) = Inl e \<and> \<not> sublist ''timed out'' (exc_repr e)"
    then show "execute_request self request w =
            (Inl (Raised e), w\<lparr>calls := calls w @ [request]\<rparr>)"
      unfolding execute_request_def using assms retry_refused [of 0 w e 0 self request] by simp
  }
qed

lemma timed_out_socket: "sublist ''timed out'' (exc_repr socket_timeout)"
  using str_find_sublist [of "exc_repr socket_timeout" "''timed out''"]
  by (simp add: socket_timeout_def str_find_def)

lemma not_timed_out_404: "\<not> sublist ''timed out'' (exc_repr http_404)"
  using str_find_sublist [of "exc_repr http_404" "''timed out''"]
  by (simp add: http_404_def str_find_def)

theorem execute_request_retry_witness:
  "execute_request init get_request (fresh (script [Inl socket_timeout] (Inr one_file)) no_chunks) =
     (Inr (Some one_file),
      (fresh (script [Inl socket_timeout] (Inr one_file)) no_chunks)
        \<lparr>calls := [get_request, get_request]\<rparr>)
   \<and> execute_request init get_request (fresh (\<lambda>k. Inl socket_timeout) no_chunks) =
     (Inl (RequestError ''Timeout : timeout('timed out')''),
      (fresh (\<lambda>k. Inl socket_timeout) no_chunks)\<lparr>calls := [get_request, get_request]\<rparr>)
   \<and> execute_request init get_request (fresh (\<lambda>k. Inl http_404) no_chunks) =
     (Inl (Raised http_404), (fresh (\<lambda>k. Inl http_404) no_chunks)\<lparr>calls := [get_request]\<rparr>)"
  using
    execute_request_retry [where self = init and request = get_request and v = one_file
      and w = "fresh (script [Inl socket_timeout] (Inr one_file)) no_chunks"]
    execute_request_retry [where self = init and request = get_request
      and es = "\<lambda>k. socket_timeout" and w = "fresh (\<lambda>k. Inl socket_timeout) no_chunks"]
    execute_request_retry [where self = init and request = get_request and e = http_404
      and w = "fresh (\<lambda>k. Inl http_404) no_chunks"]
    timed_out_socket not_timed_out_404
  by (simp add: init_def fresh_def script_def numeral_2_eq_2 socket_timeout_def)

text \<open>
  C10, as amended. With a retry budget of zero or less the loop body of the executor never
  runs: it returns \<^verbatim>\<open>None\<close>, raises nothing and leaves the world as it was, so the request is
  not executed even once. The methods that drop the response (\<^verbatim>\<open>delete\<close>, \<^verbatim>\<open>move_file\<close>,
  \<^verbatim>\<open>delete_permission\<close>, and \<^verbatim>\<open>create_permission\<close> once its checks have passed) then
  return as if the call had been made, and nothing was sent. The methods that subscript the
  response (\<^verbatim>\<open>get_update_time\<close>, \<^verbatim>\<open>list\<close>, \<^verbatim>\<open>spreadsheet_metadata\<close>, \<^verbatim>\<open>list_permissions\<close>)
  raise \<^verbatim>\<open>TypeError\<close>, and nothing was sent either.
\<close>

theorem no_budget_operations:
  assumes "retries self \<le> 0"
  shows "execute_request self request w = (Inr None, w)
    \<and> (kwargs ''fileId'' = None \<longrightarrow> delete self file_id kwargs w = (Inr (), w))
    \<and> (kwargs ''fileId'' = None \<and> kwargs ''removeParents'' = None \<and>
        kwargs ''addParents'' = None \<longrightarrow>
          move_file self file_id old_folder new_folder kwargs w = (Inr (), w))
    \<and> (kwargs ''fileId'' = None \<and> kwargs ''permissionId'' = None \<longrightarrow>
          delete_permission self file_id permission_id kwargs w = (Inr (), w))
    \<and> (\<forall>b k. permission_body word self role type kwargs = Inr (b, k) \<and>
            k ''fileId'' = None \<and> k ''body'' = None \<longrightarrow>
          create_permission word self file_id role type kwargs w = (Inr None, w))
    \<and> get_update_time self file_id w =
          (Inl (TypeError ''NoneType object is not subscriptable''), w)
    \<and> list_files self kwargs w =
          Some (Inl (TypeError ''NoneType object is not subscriptable''), w)
    \<and> spreadsheet_metadata self query w =
          Some (Inl (TypeError ''NoneType object is not subscriptable''), w)
    \<and> (kwargs ''fileId'' = None \<longrightarrow>
          list_permissions self file_id kwargs w =
            Some (Inl (TypeError ''NoneType object is not subscriptable''), w))"
proof -
  have ex: "execute_request self r w = (Inr None, w)" for r
    using assms by (simp add: execute_request_def execute_request_from_done)
  have lf: "list_files self kw w =
      Some (Inl (TypeError ''NoneType object is not subscriptable''), w)" for kw
    by (simp add: list_files_def ex list_extend_def)
  show ?thesis
  proof (intro conjI impI allI)
    show "execute_request self request w = (Inr None, w)" by (rule ex)
    show "delete self file_id kwargs w = (Inr (), w)" if "kwargs ''fileId'' = None"
      using that by (simp add: delete_def duplicate_keyword_def ex)
    show "move_file self file_id old_folder new_folder kwargs w = (Inr (), w)"
      if "kwargs ''fileId'' = None \<and> kwargs ''removeParents'' = None \<and>
          kwargs ''addParents'' = None"
      using that by (simp add: move_file_def duplicate_keyword_def ex)
    show "delete_permission self file_id permission_id kwargs w = (Inr (), w)"
      if "kwargs ''fileId'' = None \<and> kwargs ''permissionId'' = None"
      using that by (simp add: delete_permission_def Let_def duplicate_keyword_def ex)
    show "create_permission word self file_id role type kwargs w = (Inr None, w)"
      if "permission_body word self role type kwargs = Inr (b, k) \<and>
            k ''fileId'' = None \<and> k ''body'' = None" for b k
      using that by (simp add: create_permission_def duplicate_keyword_def ex)
    show "get_update_time self file_id w =
          (Inl (TypeError ''NoneType object is not subscriptable''), w)"
      by (simp add: get_update_time_def ex)
    show "list_files self kwargs w =
          Some (Inl (TypeError ''NoneType object is not subscriptable''), w)"
      by (rule lf)
    show "spreadsheet_metadata self query w =
          Some (Inl (TypeError ''NoneType object is not subscriptable''), w)"
      by (simp add: spreadsheet_metadata_def Let_def lf)
    show "list_permissions self file_id kwargs w =
            Some (Inl (TypeError ''NoneType object is not subscriptable''), w)"
      if "kwargs ''fileId'' = None"
      using that by (simp add: list_permissions_def Let_def duplicate_keyword_def ex list_extend_def)
  qed
qed

theorem no_budget_operations_witness:
  "retries (init\<lparr>retries := 0\<rparr>) \<le> 0
   \<and> execute_request (init\<lparr>retries := 0\<rparr>) get_request (fresh (\<lambda>k. Inr one_file) no_chunks) =
       (Inr None, fresh (\<lambda>k. Inr one_file) no_chunks)
   \<and> delete (init\<lparr>retries := 0\<rparr>) ''f'' Map.empty (fresh (\<lambda>k. Inr one_file) no_chunks) =
       (Inr (), fresh (\<lambda>k. Inr one_file) no_chunks)
   \<and> delete_permission (init\<lparr>retries := 0\<rparr>) ''f'' ''p'' Map.empty
         (fresh (\<lambda>k. Inr one_file) no_chunks) =
       (Inr (), fresh (\<lambda>k. Inr one_file) no_chunks)
   \<and> list_files (init\<lparr>retries := 0\<rparr>) Map.empty (fresh (\<lambda>k. Inr one_file) no_chunks) =
       Some (Inl (TypeError ''NoneType object is not subscriptable''),
             fresh (\<lambda>k. Inr one_file) no_chunks)
   \<and> list_permissions (init\<lparr>retries := 0\<rparr>) ''f'' Map.empty
         (fresh (\<lambda>k. Inr one_file) no_chunks) =
       Some (Inl (TypeError ''NoneType object is not subscriptable''),
             fresh (\<lambda>k. Inr one_file) no_chunks)
   \<and> calls (snd (execute_request (init\<lparr>retries := - 3\<rparr>) get_request
        (fresh (\<lambda>k. Inl socket_timeout) no_chunks))) = []"
  using no_budget_operations [where self = "init\<lparr>retries := 0\<rparr>" and request = get_request
      and w = "fresh (\<lambda>k. Inr one_file) no_chunks" and kwargs = Map.empty
      and file_id = "''f''" and permission_id = "''p''"]
    no_budget_operations [where self = "init\<lparr>retries := - 3\<rparr>" and request = get_request
      and w = "fresh (\<lambda>k. Inl socket_timeout) no_chunks"]
  by (simp add: init_def fresh_def)

text \<open>
  C10 as stated fails in its last part: with a budget of zero \<^verbatim>\<open>list\<close> and
  \<^verbatim>\<open>get_update_time\<close> do not silently yield no response; each ends in a failure, the
  \<^verbatim>\<open>TypeError\<close> of subscripting \<^verbatim>\<open>None\<close>.
\<close>

theorem list_no_budget_raises:
  "list_files (init\<lparr>retries := 0\<rparr>) [''q'' \<mapsto> PStr ''x'']
      (fresh (\<lambda>k. Inr one_file) no_chunks) =
     Some (Inl (TypeError ''NoneType object is not subscriptable''),
           fresh (\<lambda>k. Inr one_file) no_chunks)
   \<and> get_update_time (init\<lparr>retries := 0\<rparr>) ''f'' (fresh (\<lambda>k. Inr one_file) no_chunks) =
     (Inl (TypeError ''NoneType object is not subscriptable''),
      fresh (\<lambda>k. Inr one_file) no_chunks)"
  by (simp add: list_files_def get_update_time_def list_extend_def execute_request_def
      execute_request_from.simps init_def)

section \<open>Pagination\<close>

lemma execute_request_ok:
  assumes "0 < retries self" "responses w (length (calls w)) = Inr r"
  shows "execute_request self request w = (Inr (Some r), w\<lparr>calls := calls w @ [request]\<rparr>)"
  unfolding execute_request_def using assms retry_success [of 0 w r 0 self request] by simp

lemma list_while_pages:
  assumes "0 < retries self"
  shows "\<lbrakk>\<forall>k<length rs. responses w (length (calls w) + k) = Inr (rs ! k);
          map (\<lambda>r. r ''files'') rs = map (\<lambda>p. Some (PList p)) ps;
          map (\<lambda>r. r ''nextPageToken'') (r0 # rs) = map Some ts @ [None]\<rbrakk> \<Longrightarrow>
    list_while self kwargs result r0 w =
      Some (Inr (result @ concat ps,
                 (if ts = [] then kwargs else kwargs(''pageToken'' \<mapsto> last ts)),
                 last (r0 # rs)),
            w\<lparr>calls := calls w @
               map (\<lambda>t. \<lparr>endpoint = Files_list, params = kwargs(''pageToken'' \<mapsto> t),
                          body = None\<rparr>) ts\<rparr>)"
proof (induction rs arbitrary: r0 ts ps kwargs result w)
  case Nil
  then show ?case by (subst list_while.simps) auto
next
  case (Cons r1 rs)
  from Cons.prems(3) obtain t ts' where ts: "ts = t # ts'" "r0 ''nextPageToken'' = Some t"
    "map (\<lambda>r. r ''nextPageToken'') (r1 # rs) = map Some ts' @ [None]"
    by (cases ts) auto
  from Cons.prems(2) obtain p ps' where ps: "ps = p # ps'" "r1 ''files'' = Some (PList p)"
    "map (\<lambda>r. r ''files'') rs = map (\<lambda>p. Some (PList p)) ps'"
    by (cases ps) auto
  let ?kw = "kwargs(''pageToken'' \<mapsto> t)"
  let ?req = "\<lparr>endpoint = Files_list, params = ?kw, body = None\<rparr>"
  let ?w = "w\<lparr>calls := calls w @ [?req]\<rparr>"
  have r1: "responses w (length (calls w)) = Inr r1"
    using Cons.prems(1) by (auto dest: spec [where x = 0])
  have ex: "execute_request self ?req w = (Inr (Some r1), ?w)"
    by (rule execute_request_ok [OF assms r1])
  have rest: "\<forall>k<length rs. responses ?w (length (calls ?w) + k) = Inr (rs ! k)"
    using Cons.prems(1) by (auto dest: spec [where x = "Suc k" for k])
  have ih: "list_while self ?kw (result @ p) r1 ?w =
      Some (Inr ((result @ p) @ concat ps',
                 (if ts' = [] then ?kw else ?kw(''pageToken'' \<mapsto> last ts')),
                 last (r1 # rs)),
            ?w\<lparr>calls := calls ?w @
               map (\<lambda>t. \<lparr>endpoint = Files_list, params = ?kw(''pageToken'' \<mapsto> t),
                          body = None\<rparr>) ts'\<rparr>)"
    by (rule Cons.IH [OF rest ps(3) ts(3)])
  show ?case
    by (subst list_while.simps) (simp add: ts ps ex ih list_extend_def)
qed

text \<open>
  Pagination of \<^verbatim>\<open>list\<close>. When the provider answers the next requests with the responses
  \<open>rs\<close>, each carrying the page \<open>ps ! k\<close> under \<^verbatim>\<open>files\<close>, every one but the last a token,
  then \<^verbatim>\<open>list\<close> returns the pages concatenated in order, after one request per page, each
  later request carrying the token of the response before it. The last hypothesis keeps
  away from line 88, which needs \<^verbatim>\<open>corpora\<close> among the keyword arguments.
\<close>

lemma list_files_pages:
  assumes budget: "0 < retries self"
    and provider: "\<forall>k<length rs. responses w (length (calls w) + k) = Inr (rs ! k)"
    and pages: "map (\<lambda>r. r ''files'') rs = map (\<lambda>p. Some (PList p)) ps"
    and tokens: "map (\<lambda>r. r ''nextPageToken'') rs = map Some ts @ [None]"
    and complete: "(case last rs ''incompleteSearch'' of None \<Rightarrow> False | Some v \<Rightarrow> truthy v) \<longrightarrow>
                   kwargs ''corpora'' \<noteq> None"
  shows "\<exists>w'. list_files self kwargs w = Some (Inr (concat ps), w') \<and>
           calls w' = calls w @
             \<lparr>endpoint = Files_list, params = kwargs, body = None\<rparr> #
             map (\<lambda>t. \<lparr>endpoint = Files_list, params = kwargs(''pageToken'' \<mapsto> t),
                        body = None\<rparr>) ts \<and>
           logged w' = logged w @
             (if (case last rs ''incompleteSearch'' of None \<Rightarrow> False | Some v \<Rightarrow> truthy v)
              then [(''WARNING'', incomplete_search_warning, [the (kwargs ''corpora'')])]
              else [])"
proof -
  from tokens obtain r0 rs' where rs: "rs = r0 # rs'" by (cases rs) auto
  from pages rs obtain p ps' where ps: "ps = p # ps'" "r0 ''files'' = Some (PList p)"
    "map (\<lambda>r. r ''files'') rs' = map (\<lambda>p. Some (PList p)) ps'"
    by (cases ps) auto
  let ?req = "\<lparr>endpoint = Files_list, params = kwargs, body = None\<rparr>"
  let ?w = "w\<lparr>calls := calls w @ [?req]\<rparr>"
  have r0: "responses w (length (calls w)) = Inr r0"
    using provider rs by (auto dest: spec [where x = 0])
  have ex: "execute_request self ?req w = (Inr (Some r0), ?w)"
    by (rule execute_request_ok [OF budget r0])
  have rest: "\<forall>k<length rs'. responses ?w (length (calls ?w) + k) = Inr (rs' ! k)"
    using provider rs by (auto dest: spec [where x = "Suc k" for k])
  have tokens': "map (\<lambda>r. r ''nextPageToken'') (r0 # rs') = map Some ts @ [None]"
    using tokens rs by simp
  have loop: "list_while self kwargs ([] @ p) r0 ?w =
      Some (Inr (([] @ p) @ concat ps',
                 (if ts = [] then kwargs else kwargs(''pageToken'' \<mapsto> last ts)),
                 last (r0 # rs')),
            ?w\<lparr>calls := calls ?w @
               map (\<lambda>t. \<lparr>endpoint = Files_list, params = kwargs(''pageToken'' \<mapsto> t),
                          body = None\<rparr>) ts\<rparr>)"
    by (rule list_while_pages [OF budget rest ps(3) tokens'])
  have corpora: "(if ts = [] then kwargs else kwargs(''pageToken'' \<mapsto> last ts)) ''corpora'' =
     kwargs ''corpora''" by simp
  have ext: "list_extend [] (Some r0) ''files'' = Inr ([] @ p)"
    by (simp add: list_extend_def ps)
  show ?thesis
    using complete corpora
    unfolding list_files_def ex prod.case sum.case ext option.case loop rs [symmetric]
    by (cases "kwargs ''corpora''") (auto simp: ps rs simp del: last.simps fun_upd_apply)
qed

text \<open>
  Pagination of \<^verbatim>\<open>list_permissions\<close>, for a caller who passes neither \<^verbatim>\<open>fileId\<close> nor
  \<^verbatim>\<open>pageToken\<close> as a keyword: the pages under \<^verbatim>\<open>permissions\<close> are returned concatenated in
  order, after one request per page.
\<close>

lemma list_permissions_while_pages:
  assumes "0 < retries self" and "kwargs ''fileId'' = None" and "kwargs ''pageToken'' = None"
  shows "\<lbrakk>\<forall>k<length rs. responses w (length (calls w) + k) = Inr (rs ! k);
          map (\<lambda>r. r ''permissions'') rs = map (\<lambda>p. Some (PList p)) ps;
          map (\<lambda>r. r ''nextPageToken'') (r0 # rs) = map Some ts @ [None]\<rbrakk> \<Longrightarrow>
    list_permissions_while self file_id kwargs permissions r0 w =
      Some (Inr (permissions @ concat ps),
            w\<lparr>calls := calls w @
               map (\<lambda>t. \<lparr>endpoint = Permissions_list,
                          params = kwargs(''fileId'' \<mapsto> PStr file_id, ''pageToken'' \<mapsto> t),
                          body = None\<rparr>) ts\<rparr>)"
proof (induction rs arbitrary: r0 ts ps permissions w)
  case Nil
  then show ?case by (subst list_permissions_while.simps) auto
next
  case (Cons r1 rs)
  from Cons.prems(3) obtain t ts' where ts: "ts = t # ts'" "r0 ''nextPageToken'' = Some t"
    "map (\<lambda>r. r ''nextPageToken'') (r1 # rs) = map Some ts' @ [None]"
    by (cases ts) auto
  from Cons.prems(2) obtain p ps' where ps: "ps = p # ps'" "r1 ''permissions'' = Some (PList p)"
    "map (\<lambda>r. r ''permissions'') rs = map (\<lambda>p. Some (PList p)) ps'"
    by (cases ps) auto
  let ?req = "\<lparr>endpoint = Permissions_list,
               params = kwargs(''fileId'' \<mapsto> PStr file_id, ''pageToken'' \<mapsto> t), body = None\<rparr>"
  let ?w = "w\<lparr>calls := calls w @ [?req]\<rparr>"
  have r1: "responses w (length (calls w)) = Inr r1"
    using Cons.prems(1) by (auto dest: spec [where x = 0])
  have ex: "execute_request self ?req w = (Inr (Some r1), ?w)"
    by (rule execute_request_ok [OF assms(1) r1])
  have rest: "\<forall>k<length rs. responses ?w (length (calls ?w) + k) = Inr (rs ! k)"
    using Cons.prems(1) by (auto dest: spec [where x = "Suc k" for k])
  have ih: "list_permissions_while self file_id kwargs (permissions @ p) r1 ?w =
      Some (Inr ((permissions @ p) @ concat ps'),
            ?w\<lparr>calls := calls ?w @
               map (\<lambda>t. \<lparr>endpoint = Permissions_list,
                          params = kwargs(''fileId'' \<mapsto> PStr file_id, ''pageToken'' \<mapsto> t),
                          body = None\<rparr>) ts'\<rparr>)"
    by (rule Cons.IH [OF rest ps(3) ts(3)])
  have dup: "duplicate_keyword [''fileId'', ''pageToken''] kwargs = None"
    using assms(2,3) by (simp add: duplicate_keyword_def)
  show ?case
    by (subst list_permissions_while.simps) (simp add: ts ps ex ih dup list_extend_def)
qed

lemma list_permissions_pages:
  assumes budget: "0 < retries self"
    and no_file_id: "kwargs0 ''fileId'' = None" and no_token: "kwargs0 ''pageToken'' = None"
    and provider: "\<forall>k<length rs. responses w (length (calls w) + k) = Inr (rs ! k)"
    and pages: "map (\<lambda>r. r ''permissions'') rs = map (\<lambda>p. Some (PList p)) ps"
    and tokens: "map (\<lambda>r. r ''nextPageToken'') rs = map Some ts @ [None]"
  shows "\<exists>w'. list_permissions self file_id kwargs0 w = Some (Inr (concat ps), w') \<and>
           length (calls w') = length (calls w) + length rs"
proof -
  let ?kwargs1 = "if kwargs0 ''supportsTeamDrives'' = None \<and> team_drive_active self
                     then kwargs0(''supportsTeamDrives'' \<mapsto> PBool True) else kwargs0"
  let ?kwargs = "if ?kwargs1 ''fields'' = None then ?kwargs1(''fields'' \<mapsto> PStr ''*'') else ?kwargs1"
  have kw: "?kwargs ''fileId'' = None" "?kwargs ''pageToken'' = None"
    using no_file_id no_token by simp_all
  from tokens obtain r0 rs' where rs: "rs = r0 # rs'" by (cases rs) auto
  from pages rs obtain p ps' where ps: "ps = p # ps'" "r0 ''permissions'' = Some (PList p)"
    "map (\<lambda>r. r ''permissions'') rs' = map (\<lambda>p. Some (PList p)) ps'"
    by (cases ps) auto
  let ?req = "\<lparr>endpoint = Permissions_list, params = ?kwargs(''fileId'' \<mapsto> PStr file_id), body = None\<rparr>"
  let ?w = "w\<lparr>calls := calls w @ [?req]\<rparr>"
  have r0: "responses w (length (calls w)) = Inr r0"
    using provider rs by (auto dest: spec [where x = 0])
  have ex: "execute_request self ?req w = (Inr (Some r0), ?w)"
    by (rule execute_request_ok [OF budget r0])
  have rest: "\<forall>k<length rs'. responses ?w (length (calls ?w) + k) = Inr (rs' ! k)"
    using provider rs by (auto dest: spec [where x = "Suc k" for k])
  have tokens': "map (\<lambda>r. r ''nextPageToken'') (r0 # rs') = map Some ts @ [None]"
    using tokens rs by simp
  have loop: "list_permissions_while self file_id ?kwargs ([] @ p) r0 ?w =
      Some (Inr (([] @ p) @ concat ps'),
            ?w\<lparr>calls := calls ?w @
               map (\<lambda>t. \<lparr>endpoint = Permissions_list,
                          params = ?kwargs(''fileId'' \<mapsto> PStr file_id, ''pageToken'' \<mapsto> t),
                          body = None\<rparr>) ts\<rparr>)"
    by (rule list_permissions_while_pages [OF budget kw rest ps(3) tokens'])
  have "length (map Some ts @ [None :: pyval option]) = length (r0 # rs')"
    using tokens' by (metis length_map)
  then have len: "length ts = length rs'" by simp
  have dup: "duplicate_keyword [''fileId''] ?kwargs = None"
    unfolding duplicate_keyword_def using kw(1) by simp
  have ext: "list_extend [] (Some r0) ''permissions'' = Inr ([] @ p)"
    by (simp add: list_extend_def ps)
  have "list_permissions self file_id kwargs0 w =
      Some (Inr (([] @ p) @ concat ps'),
            ?w\<lparr>calls := calls ?w @
               map (\<lambda>t. \<lparr>endpoint = Permissions_list,
                          params = ?kwargs(''fileId'' \<mapsto> PStr file_id, ''pageToken'' \<mapsto> t),
                          body = None\<rparr>) ts\<rparr>)"
    unfolding list_permissions_def Let_def dup option.case ex prod.case sum.case ext loop ..
  then show ?thesis
    by (simp add: ps rs len)
qed

text \<open>
  C2. A caller of \<^verbatim>\<open>list_permissions\<close> who passes \<^verbatim>\<open>pageToken\<close> itself, and whose provider
  answers with two pages, does not get the two pages: the second request is written
  \<^verbatim>\<open>list(fileId=..., pageToken=..., **kwargs)\<close>, which repeats the keyword and raises
  \<^verbatim>\<open>TypeError\<close> after the first page. \<^verbatim>\<open>list\<close>, which puts the token into \<open>kwargs\<close>, returns
  both pages for the same keyword and the same kind of answers. And \<^verbatim>\<open>list\<close> itself, called
  without \<^verbatim>\<open>corpora\<close> and answered by two pages of which the last reports an incomplete
  search, raises \<^verbatim>\<open>KeyError\<close> after its two requests instead of returning the pages.
\<close>

theorem list_permissions_caller_token_raises:
  "list_permissions init ''f'' [''pageToken'' \<mapsto> PStr ''t0'']
      (fresh (script [Inr first_page] (Inr last_page)) no_chunks) =
     Some (Inl (TypeError ''got multiple values for keyword argument pageToken''),
       (fresh (script [Inr first_page] (Inr last_page)) no_chunks)
         \<lparr>calls := [\<lparr>endpoint = Permissions_list,
                      params = [''pageToken'' \<mapsto> PStr ''t0'', ''fields'' \<mapsto> PStr ''*'',
                                ''fileId'' \<mapsto> PStr ''f''],
                      body = None\<rparr>]\<rparr>)
   \<and> map_option fst (list_files init [''pageToken'' \<mapsto> PStr ''t0'']
        (fresh (script [Inr first_files] (Inr last_files)) no_chunks)) =
     Some (Inr [PStr ''a'', PStr ''b''])
   \<and> map_option (\<lambda>rw. (fst rw, length (calls (snd rw))))
       (list_files init [''q'' \<mapsto> PStr ''x'']
          (fresh (script [Inr first_files] (Inr last_files_incomplete)) no_chunks)) =
     Some (Inl (KeyError ''corpora''), 2)"
  by (simp add: list_permissions_def list_permissions_while.simps list_files_def
      list_while.simps execute_request_def execute_request_from.simps execute_def
      init_def fresh_def script_def team_drive_active_def duplicate_keyword_def
      multiple_values_def list_extend_def first_page_def last_page_def first_files_def
      last_files_def last_files_incomplete_def)

text \<open>
  C4. \<^verbatim>\<open>list\<close> called without the keyword \<^verbatim>\<open>corpora\<close>, as \<^verbatim>\<open>spreadsheet_metadata\<close> calls it
  outside a team drive, and answered by one page that reports an incomplete search: line 88
  reads \<^verbatim>\<open>kwargs['corpora']\<close> for the warning and raises \<^verbatim>\<open>KeyError\<close>; nothing is logged and
  the page is not returned. With \<^verbatim>\<open>corpora\<close> given the same answer is returned and the
  warning logged.
\<close>

theorem list_incomplete_search_raises:
  "list_files init [''q'' \<mapsto> PStr ''x''] (fresh (\<lambda>k. Inr incomplete_page) no_chunks) =
     Some (Inl (KeyError ''corpora''),
       (fresh (\<lambda>k. Inr incomplete_page) no_chunks)\<lparr>calls := [get_request]\<rparr>)
   \<and> map_option fst
       (spreadsheet_metadata init [] (fresh (\<lambda>k. Inr incomplete_page) no_chunks)) =
     Some (Inl (KeyError ''corpora''))
   \<and> map_option (\<lambda>rw. (fst rw, logged (snd rw)))
       (list_files init [''q'' \<mapsto> PStr ''x'', ''corpora'' \<mapsto> PStr ''user'']
          (fresh (\<lambda>k. Inr incomplete_page) no_chunks)) =
     Some (Inr [PStr ''a''], [(''WARNING'', incomplete_search_warning, [PStr ''user''])])"
  by (simp add: spreadsheet_metadata_def list_files_def list_while.simps
      execute_request_def execute_request_from.simps execute_def init_def fresh_def
      team_drive_active_def list_extend_def incomplete_page_def get_request_def)

section \<open>Patterns\<close>

text \<open>Whatever a pattern leaves over is an end of the text it was matched on.\<close>

lemma rests_suffix: "x \<in> set (rests r s) \<Longrightarrow> suffix x s"
proof (induction r arbitrary: s x)
  case Eps
  then show ?case by simp
next
  case (Lit c)
  then show ?case by (auto split: list.splits if_splits simp: suffix_Cons)
next
  case (Opt r)
  then show ?case by auto
next
  case (Plus cls)
  then show ?case by (auto simp: suffix_drop)
next
  case (Seq r1 r2)
  from Seq.prems obtain y where y: "y \<in> set (rests r1 s)" "x \<in> set (rests r2 y)" by auto
  have "suffix x y" by (rule Seq.IH(2) [OF y(2)])
  moreover have "suffix y s" by (rule Seq.IH(1) [OF y(1)])
  ultimately show ?case by (rule suffix_order.trans)
qed

lemma rests_Seq_nonempty:
  "rests (Seq r1 r2) s \<noteq> [] \<Longrightarrow> \<exists>t\<in>set (rests r1 s). rests r2 t \<noteq> []"
  by auto

text \<open>A text without \<^verbatim>\<open>@\<close> does not match the e-mail pattern.\<close>

lemma email_needs_at:
  assumes "re_match (EMAIL_PATTERN word) s"
  shows "CHR ''@'' \<in> set s"
proof -
  let ?tail = "Seq (Plus domain_char)
    (Seq (Lit CHR ''.'') (Seq (Plus word) (Opt (Lit (CHR 0x22)))))"
  let ?at = "Seq (Lit CHR ''@'') ?tail"
  have "rests (Seq (Opt (Lit (CHR 0x22))) (Seq (Plus local_char) ?at)) s \<noteq> []"
    using assms unfolding re_match_def EMAIL_PATTERN_def .
  then obtain t where t: "t \<in> set (rests (Opt (Lit (CHR 0x22))) s)"
    and "rests (Seq (Plus local_char) ?at) t \<noteq> []"
    using rests_Seq_nonempty by blast
  then obtain u where u: "u \<in> set (rests (Plus local_char) t)" and "rests ?at u \<noteq> []"
    using rests_Seq_nonempty by blast
  then obtain v where "v \<in> set (rests (Lit CHR ''@'') u)"
    using rests_Seq_nonempty by blast
  then have "CHR ''@'' \<in> set u" by (auto split: list.splits if_splits)
  moreover have "suffix u s"
    using rests_suffix [OF u] rests_suffix [OF t] by (rule suffix_order.trans)
  ultimately show ?thesis using set_mono_suffix by blast
qed

lemma move_key_other:
  "key' \<noteq> key \<Longrightarrow> fst (move_key key bk) key' = fst bk key'"
  by (simp add: move_key_def split: option.splits)

text \<open>An address that ends in \<open>U+00E9\<close> matches under a class that holds that letter to be a
  word character, as the class of Python 3 does, and does not under the class of ASCII.\<close>

lemma accented_email_matches:
  "re_match (EMAIL_PATTERN wider_word) (''ann@example.'' @ [CHR 0xE9])"
  by (simp add: re_match_def EMAIL_PATTERN_def local_char_def domain_char_def is_lower_def
      is_upper_def is_digit_def wider_word_def ascii_word_def)

lemma email_ascii_only:
  "\<not> re_match (EMAIL_PATTERN ascii_word) (''ann@example.'' @ [CHR 0xE9])"
  by (simp add: re_match_def EMAIL_PATTERN_def local_char_def domain_char_def is_lower_def
      is_upper_def is_digit_def ascii_word_def)

lemma sample_email_matches: "re_match (EMAIL_PATTERN ascii_word) ''ann@example.org''"
  by (simp add: re_match_def EMAIL_PATTERN_def local_char_def domain_char_def ascii_word_def is_lower_def is_upper_def is_digit_def)



section \<open>Creating a permission\<close>

text \<open>The executor sends nothing but copies of the request it was given.\<close>

lemma execute_request_from_calls:
  "\<exists>n. calls (snd (execute_request_from self request i w)) = calls w @ replicate n request"
proof (induction self request i w rule: execute_request_from.induct)
  case (1 self request i w)
  show ?case
  proof (cases "i < retries self")
    case False
    then show ?thesis by (subst execute_request_from.simps) simp
  next
    case True
    let ?w = "w\<lparr>calls := calls w @ [request]\<rparr>"
    show ?thesis
    proof (cases "responses w (length (calls w))")
      case (Inr r)
      then have "calls (snd (execute_request_from self request i w)) = calls w @ replicate 1 request"
        using True by (subst execute_request_from.simps) (simp add: execute_def)
      then show ?thesis by blast
    next
      case (Inl e)
      show ?thesis
      proof (cases "str_find (exc_repr e) ''timed out'' = - 1 \<or> i = retries self - 1")
        case True
        then have "calls (snd (execute_request_from self request i w)) = calls w @ replicate 1 request"
          using \<open>i < retries self\<close> Inl by (subst execute_request_from.simps) (auto simp: execute_def)
        then show ?thesis by blast
      next
        case False
        have ex: "execute request w = (Inl e, ?w)" using Inl by (simp add: execute_def)
        from "1.IH" [OF True ex [symmetric] refl] False
        obtain n where "calls (snd (execute_request_from self request (i + 1) ?w)) =
            calls ?w @ replicate n request" by auto
        then have "calls (snd (execute_request_from self request i w)) =
            calls w @ replicate (Suc n) request"
          using True False Inl
          by (subst execute_request_from.simps) (simp add: execute_def replicate_app_Cons_same)
        then show ?thesis by blast
      qed
    qed
  qed
qed

lemma execute_request_calls:
  "\<exists>n. calls (snd (execute_request self request w)) = calls w @ replicate n request"
  unfolding execute_request_def by (rule execute_request_from_calls)

lemma permission_body_grantee:
  assumes "permission_body word self role type kwargs = Inr (b, k)"
  shows "b ''emailAddress'' = kwargs ''emailAddress''"
    and "b ''domain'' = (if kwargs ''emailAddress'' = None then kwargs ''domain'' else None)"
    and "role \<in> set PERMISSION_ROLES" and "type \<in> set PERMISSION_TYPES"
    and "kwargs ''emailAddress'' = None \<or> kwargs ''domain'' = None"
  using assms
  by (auto simp: permission_body_def Let_def move_key_def
      split: if_splits option.splits pyval.splits)

lemma permission_body_email:
  assumes "kwargs ''emailAddress'' = Some (PStr email)"
  shows "permission_body word self role type kwargs = Inr (b, k) \<Longrightarrow> re_match (EMAIL_PATTERN word) email"
    and "\<not> re_match (EMAIL_PATTERN word) email \<Longrightarrow>
           \<exists>msg. permission_body word self role type kwargs = Inl (InvalidArgumentValue msg)"
    and "\<lbrakk>re_match (EMAIL_PATTERN word) email; role \<in> set PERMISSION_ROLES;
          type \<in> set PERMISSION_TYPES; kwargs ''domain'' = None\<rbrakk> \<Longrightarrow>
           \<exists>b k. permission_body word self role type kwargs = Inr (b, k)"
  using assms
  by (auto simp: permission_body_def Let_def split: if_splits)

lemma create_permission_sent:
  assumes "r \<in> set (drop (length (calls w))
             (calls (snd (create_permission word self file_id role type kwargs w))))"
  shows "\<exists>b k. permission_body word self role type kwargs = Inr (b, k) \<and> body r = Some b"
proof (cases "permission_body word self role type kwargs")
  case (Inl e)
  then show ?thesis using assms by (simp add: create_permission_def)
next
  case (Inr bk)
  obtain b k where bk: "bk = (b, k)" by (cases bk)
  show ?thesis
  proof (cases "duplicate_keyword [''fileId'', ''body''] k")
    case (Some a)
    then show ?thesis using assms Inr bk by (simp add: create_permission_def)
  next
    case None
    let ?req = "\<lparr>endpoint = Permissions_create, params = k(''fileId'' \<mapsto> PStr file_id),
                 body = Some b\<rparr>"
    obtain n where "calls (snd (execute_request self ?req w)) = calls w @ replicate n ?req"
      using execute_request_calls by blast
    then have "r = ?req"
      using assms Inr bk None by (auto simp: create_permission_def)
    then show ?thesis using Inr bk by simp
  qed
qed

text \<open>The one request sent for a reader named by an address.\<close>

lemma address_sent:
  "calls (snd (create_permission ascii_word init ''f'' ''reader'' ''user'' address accepting)) =
     [\<lparr>endpoint = Permissions_create, params = [''fileId'' \<mapsto> PStr ''f''],
       body = Some [''kind'' \<mapsto> PStr ''drive#permission'', ''type'' \<mapsto> PStr ''user'',
                    ''role'' \<mapsto> PStr ''reader'', ''emailAddress'' \<mapsto> PStr ''ann@example.org'']\<rparr>]"
  using sample_email_matches
  by (simp add: create_permission_def permission_body_def PERMISSION_ROLES_def
      PERMISSION_TYPES_def team_drive_active_def init_def move_key_def address_def
      duplicate_keyword_def execute_request_def execute_request_from.simps execute_def
      accepting_def fresh_def fun_upd_twist)

text \<open>
  C6. For a call of \<^verbatim>\<open>create_permission\<close> with the keyword \<^verbatim>\<open>emailAddress\<close> set to a text,
  and whatever the interpreter's class \<^verbatim>\<open>\w\<close> is: a text without \<^verbatim>\<open>@\<close> does not match the
  pattern; when the text does not match, the call raises \<^verbatim>\<open>InvalidArgumentValue\<close> and the
  world is as before, so nothing was sent; when it matches, every body the method builds, and
  the body of every request it sends, has that very text under \<^verbatim>\<open>emailAddress\<close> and no
  \<^verbatim>\<open>domain\<close>; and with a role and a type of the fixed lists and no \<^verbatim>\<open>domain\<close> keyword the
  body is built.
\<close>

theorem create_permission_email:
  assumes "kwargs ''emailAddress'' = Some (PStr email)"
  shows "(CHR ''@'' \<notin> set email \<longrightarrow> \<not> re_match (EMAIL_PATTERN word) email)
    \<and> (\<not> re_match (EMAIL_PATTERN word) email \<longrightarrow>
         (\<exists>msg. create_permission word self file_id role type kwargs w =
                  (Inl (InvalidArgumentValue msg), w)))
    \<and> (re_match (EMAIL_PATTERN word) email \<longrightarrow>
         (\<forall>b k. permission_body word self role type kwargs = Inr (b, k) \<longrightarrow>
                  b ''emailAddress'' = Some (PStr email) \<and> b ''domain'' = None)
       \<and> (\<forall>r\<in>set (drop (length (calls w))
                     (calls (snd (create_permission word self file_id role type kwargs w)))).
             \<exists>b. body r = Some b \<and> b ''emailAddress'' = Some (PStr email) \<and>
                  b ''domain'' = None)
       \<and> (role \<in> set PERMISSION_ROLES \<and> type \<in> set PERMISSION_TYPES \<and>
           kwargs ''domain'' = None \<longrightarrow>
             (\<exists>b k. permission_body word self role type kwargs = Inr (b, k))))"
proof (intro conjI impI allI ballI)
  show "\<not> re_match (EMAIL_PATTERN word) email" if "CHR ''@'' \<notin> set email"
    using that email_needs_at by blast
  show "\<exists>msg. create_permission word self file_id role type kwargs w =
                  (Inl (InvalidArgumentValue msg), w)" if "\<not> re_match (EMAIL_PATTERN word) email"
    using permission_body_email(2) [where kwargs = kwargs and email = email
        and word = word and self = self and role = role and type = type] assms that
    by (auto simp: create_permission_def)
  show "b ''emailAddress'' = Some (PStr email)"
    if "permission_body word self role type kwargs = Inr (b, k)" for b k
    using permission_body_grantee(1) [OF that] assms by simp
  show "b ''domain'' = None"
    if "permission_body word self role type kwargs = Inr (b, k)" for b k
    using permission_body_grantee(2) [OF that] assms by simp
  show "\<exists>b. body r = Some b \<and> b ''emailAddress'' = Some (PStr email) \<and> b ''domain'' = None"
    if "r \<in> set (drop (length (calls w))
                     (calls (snd (create_permission word self file_id role type kwargs w))))" for r
  proof -
    from create_permission_sent [OF that] obtain b k
      where b: "permission_body word self role type kwargs = Inr (b, k)" "body r = Some b" by blast
    show ?thesis
      using permission_body_grantee(1,2) [OF b(1)] b(2) assms by simp
  qed
  show "\<exists>b k. permission_body word self role type kwargs = Inr (b, k)"
    if "re_match (EMAIL_PATTERN word) email"
      "role \<in> set PERMISSION_ROLES \<and> type \<in> set PERMISSION_TYPES \<and> kwargs ''domain'' = None"
    using permission_body_email(3) [where kwargs = kwargs and email = email
        and word = word and self = self and role = role and type = type] assms that by simp
qed

theorem create_permission_email_witness:
  "no_address ''emailAddress'' = Some (PStr ''ann.example.org'')
   \<and> CHR ''@'' \<notin> set ''ann.example.org''
   \<and> (\<exists>msg. create_permission ascii_word init ''f'' ''reader'' ''user'' no_address accepting =
             (Inl (InvalidArgumentValue msg), accepting))
   \<and> re_match (EMAIL_PATTERN ascii_word) ''ann@example.org''
   \<and> (\<exists>b k. permission_body ascii_word init ''reader'' ''user'' address = Inr (b, k) \<and>
             b ''emailAddress'' = Some (PStr ''ann@example.org'') \<and> b ''domain'' = None)
   \<and> list_all (\<lambda>r. \<exists>b. body r = Some b \<and> b ''emailAddress'' = Some (PStr ''ann@example.org'') \<and>
                     b ''domain'' = None)
        (drop (length (calls accepting))
          (calls (snd (create_permission ascii_word init ''f'' ''reader'' ''user'' address accepting))))
   \<and> length (calls (snd (create_permission ascii_word init ''f'' ''reader'' ''user'' address accepting))) = 1
   \<and> re_match (EMAIL_PATTERN wider_word) (''ann@example.'' @ [CHR 0xE9])
   \<and> (\<exists>b k. permission_body wider_word init ''reader'' ''user'' accented_address = Inr (b, k) \<and>
             b ''emailAddress'' = Some (PStr (''ann@example.'' @ [CHR 0xE9])) \<and>
             b ''domain'' = None)
   \<and> (\<exists>msg. create_permission ascii_word init ''f'' ''reader'' ''user'' accented_address
               accepting = (Inl (InvalidArgumentValue msg), accepting))"
proof -
  have acc: "accented_address ''emailAddress'' = Some (PStr (''ann@example.'' @ [CHR 0xE9]))"
    and acc_dom: "accented_address ''domain'' = None"
    by (simp_all add: accented_address_def)
  note c = create_permission_email [where kwargs = accented_address
      and email = "''ann@example.'' @ [CHR 0xE9]" and self = init and word = wider_word
      and file_id = "''f''" and role = "''reader''" and type = "''user''" and w = accepting,
      OF acc]
  note d = create_permission_email [where kwargs = accented_address
      and email = "''ann@example.'' @ [CHR 0xE9]" and self = init and word = ascii_word
      and file_id = "''f''" and role = "''reader''" and type = "''user''" and w = accepting,
      OF acc]
  have bad: "no_address ''emailAddress'' = Some (PStr ''ann.example.org'')"
    by (simp add: no_address_def)
  have good: "address ''emailAddress'' = Some (PStr ''ann@example.org'')"
    and dom: "address ''domain'' = None"
    by (simp_all add: address_def)
  note a = create_permission_email [where kwargs = no_address and email = "''ann.example.org''"
      and self = init and word = ascii_word and file_id = "''f''" and role = "''reader''" and type = "''user''"
      and w = accepting, OF bad]
  note b = create_permission_email [where kwargs = address and email = "''ann@example.org''"
      and self = init and word = ascii_word and file_id = "''f''" and role = "''reader''" and type = "''user''"
      and w = accepting, OF good]
  have at: "CHR ''@'' \<notin> set ''ann.example.org''" by simp
  have roles: "''reader'' \<in> set PERMISSION_ROLES" "''user'' \<in> set PERMISSION_TYPES"
    by (simp_all add: PERMISSION_ROLES_def PERMISSION_TYPES_def)
  from a at have 1: "\<not> re_match (EMAIL_PATTERN ascii_word) ''ann.example.org''" by blast
  with a have 2: "\<exists>msg. create_permission ascii_word init ''f'' ''reader'' ''user'' no_address accepting =
             (Inl (InvalidArgumentValue msg), accepting)" by blast
  from b sample_email_matches roles dom
  obtain b0 k0 where bk: "permission_body ascii_word init ''reader'' ''user'' address = Inr (b0, k0)"
    by blast
  with b sample_email_matches
  have "b0 ''emailAddress'' = Some (PStr ''ann@example.org'') \<and> b0 ''domain'' = None"
    by blast
  with bk have 3: "\<exists>b k. permission_body ascii_word init ''reader'' ''user'' address = Inr (b, k) \<and>
             b ''emailAddress'' = Some (PStr ''ann@example.org'') \<and> b ''domain'' = None"
    by blast
  from b sample_email_matches have 4: "list_all (\<lambda>r. \<exists>b. body r = Some b \<and>
          b ''emailAddress'' = Some (PStr ''ann@example.org'') \<and> b ''domain'' = None)
        (drop (length (calls accepting))
          (calls (snd (create_permission ascii_word init ''f'' ''reader'' ''user'' address accepting))))"
    unfolding list_all_iff by blast
  from c accented_email_matches roles acc_dom
  obtain b1 k1 where bk1:
    "permission_body wider_word init ''reader'' ''user'' accented_address = Inr (b1, k1)"
    by blast
  with c accented_email_matches
  have "b1 ''emailAddress'' = Some (PStr (''ann@example.'' @ [CHR 0xE9])) \<and> b1 ''domain'' = None"
    by blast
  with bk1 have 5: "\<exists>b k. permission_body wider_word init ''reader'' ''user'' accented_address =
             Inr (b, k) \<and>
             b ''emailAddress'' = Some (PStr (''ann@example.'' @ [CHR 0xE9])) \<and>
             b ''domain'' = None"
    by blast
  from d email_ascii_only
  have 6: "\<exists>msg. create_permission ascii_word init ''f'' ''reader'' ''user'' accented_address
               accepting = (Inl (InvalidArgumentValue msg), accepting)"
    by blast
  have 7: "length (calls (snd (create_permission ascii_word init ''f'' ''reader'' ''user''
             address accepting))) = 1"
    using address_sent by simp
  show ?thesis
    by (intro conjI) (rule bad at 2 sample_email_matches 3 4 7 accented_email_matches 5 6)+
qed




section \<open>Deleting a permission\<close>




section \<open>Export\<close>

text \<open>The download loop opens and closes nothing, and writes to its own file only.\<close>

lemma download_while_frame:
  assumes "download_while d request name w = Some y"
  shows "handles (snd y) = handles w \<and> (\<forall>p. p \<noteq> name \<longrightarrow> files (snd y) p = files w p)
         \<and> (files w name \<noteq> None \<longrightarrow> files (snd y) name \<noteq> None)"
proof (rule download_while.raw_induct [where P = "\<lambda>d request name w y.
    handles (snd y) = handles w \<and> (\<forall>p. p \<noteq> name \<longrightarrow> files (snd y) p = files w p)
         \<and> (files w name \<noteq> None \<longrightarrow> files (snd y) name \<noteq> None)", OF _ assms])
  fix loop d request name w y
  assume IH: "\<And>d request name w y. loop d request name w = Some y \<Longrightarrow>
       handles (snd y) = handles w \<and> (\<forall>p. p \<noteq> name \<longrightarrow> files (snd y) p = files w p)
         \<and> (files w name \<noteq> None \<longrightarrow> files (snd y) name \<noteq> None)"
    and eq: "(if \<not> d then
        (case next_chunk request name w of
           (Inl e, w') \<Rightarrow> Some (Inl (Raised e), w')
         | (Inr done', w') \<Rightarrow> loop done' request name w')
      else Some (Inr (), w)) = Some y"
  show "handles (snd y) = handles w \<and> (\<forall>p. p \<noteq> name \<longrightarrow> files (snd y) p = files w p)
         \<and> (files w name \<noteq> None \<longrightarrow> files (snd y) name \<noteq> None)"
  proof (cases d)
    case True
    with eq show ?thesis by auto
  next
    case False
    show ?thesis
    proof (cases "chunks w (length (chunk_calls w))")
      case (Inl e)
      with False eq show ?thesis by (auto simp: next_chunk_def)
    next
      case (Inr c)
      let ?w = "w\<lparr>chunk_calls := chunk_calls w @ [request],
             files := (files w)(name \<mapsto>
               (case files w name of None \<Rightarrow> [] | Some old \<Rightarrow> old) @ chunk_data c)\<rparr>"
      from False Inr eq have "loop (chunk_done c) request name ?w = Some y"
        by (simp add: next_chunk_def)
      from IH [OF this] show ?thesis by simp
    qed
  qed
qed

lemma download_frame:
  assumes "download request name w = Some (r, w')"
  shows "if writable w name
         then handles w' = handles w @ [name] \<and> files w' name \<noteq> None \<and>
              (\<forall>p. p \<noteq> name \<longrightarrow> files w' p = files w p)
         else r = Inl (OSError name) \<and> w' = w"
proof (cases "writable w name")
  case False
  with assms show ?thesis by (simp add: download_def FileIO_wb_def)
next
  case True
  let ?w = "w\<lparr>files := (files w)(name \<mapsto> []), handles := handles w @ [name]\<rparr>"
  from True assms have "download_while False request name ?w = Some (r, w')"
    by (simp add: download_def FileIO_wb_def)
  from download_while_frame [OF this] True show ?thesis by simp
qed

text \<open>A worksheet export that returns normally has restored the worksheet and has run
  one download, into the file named by path, base name and extension.\<close>

lemma export_worksheet_returns:
  assumes "export_worksheet ws file_format path filename w = Some (Inr (), ws', w')"
    and "split_format file_format = Inr (mime_type, file_extension)"
  shows "ws' = ws"
    and "download (export_request (parent_id ws) mime_type)
           (path @ (case filename of None \<Rightarrow> str_int (sheet_id ws) | Some f \<Rightarrow> f) @
              file_extension) w = Some (Inr (), w')"
  using assms
  by (auto simp: export_worksheet_def Let_def split: option.splits sum.splits)

text \<open>
  C8. When \<^verbatim>\<open>export\<close> of a worksheet returns normally, the worksheet is as it was before the
  call, its \<^verbatim>\<open>index\<close> included, and exactly one file was opened for writing: the one named
  by the path, the base name (the \<^verbatim>\<open>filename\<close> given, or \<^verbatim>\<open>str(sheet.id)\<close>) and the extension
  of the format. That file exists afterwards and no other file has changed.
\<close>

theorem export_worksheet_restores_index:
  assumes "export self (AWorksheet ws) file_format path filename w = Some (Inr (), sheet', w')"
  shows "sheet' = AWorksheet ws
    \<and> (\<exists>mime_type file_extension name.
          split_format file_format = Inr (mime_type, file_extension) \<and>
          name = path @ (case filename of None \<Rightarrow> str_int (sheet_id ws) | Some f \<Rightarrow> f) @
                   file_extension \<and>
          handles w' = handles w @ [name] \<and> files w' name \<noteq> None \<and>
          (\<forall>p. p \<noteq> name \<longrightarrow> files w' p = files w p))"
proof -
  from assms obtain ws' where
    ew: "export_worksheet ws file_format path filename w = Some (Inr (), ws', w')"
    and sheet': "sheet' = AWorksheet ws'"
    by (auto simp: export_def split: option.splits)
  from ew obtain mime_type file_extension
    where sp: "split_format file_format = Inr (mime_type, file_extension)"
    by (cases "split_format file_format") (auto simp: export_worksheet_def)
  let ?name = "path @ (case filename of None \<Rightarrow> str_int (sheet_id ws) | Some f \<Rightarrow> f) @
                   file_extension"
  let ?req = "export_request (parent_id ws) mime_type"
  from ew sp have dl: "download ?req ?name w = Some (Inr (), w')" and ws': "ws' = ws"
    by (auto simp: export_worksheet_def Let_def split: option.splits sum.splits)
  from download_frame [OF dl] have "handles w' = handles w @ [?name] \<and> files w' ?name \<noteq> None \<and>
              (\<forall>p. p \<noteq> ?name \<longrightarrow> files w' p = files w p)"
    by (auto split: if_splits)
  with sp sheet' ws' show ?thesis by blast
qed

lemma split_csv: "split_format (Member CSV) = Inr (''text/csv'', ''.csv'')"
  by (simp add: split_format_def)

text \<open>Two runs of \<^verbatim>\<open>export\<close> on the second worksheet: a download of two chunks, and one
  that fails after the first chunk.\<close>

lemma second_sheet_export_ok:
  "export init (AWorksheet second_sheet) (Member CSV) [] (Some ''out'') (fresh (\<lambda>k. Inr Map.empty) two_chunks) =
     Some (Inr (), AWorksheet second_sheet,
       (fresh (\<lambda>k. Inr Map.empty) two_chunks)
         \<lparr>chunk_calls := [csv_request, csv_request],
           files := [''out.csv'' \<mapsto> ''a,bc''], handles := [''out.csv'']\<rparr>)"
  by (simp add: export_def export_worksheet_def split_csv Let_def download_def FileIO_wb_def
      download_while.simps next_chunk_def fresh_def two_chunks_def script_def
      second_sheet_def csv_request_def)


theorem export_worksheet_restores_index_witness:
  "export init (AWorksheet second_sheet) (Member CSV) [] (Some ''out'')
      (fresh (\<lambda>k. Inr Map.empty) two_chunks) =
     Some (Inr (), AWorksheet second_sheet,
       (fresh (\<lambda>k. Inr Map.empty) two_chunks)
         \<lparr>chunk_calls := [csv_request, csv_request],
           files := [''out.csv'' \<mapsto> ''a,bc''], handles := [''out.csv'']\<rparr>)
   \<and> index second_sheet = 1
   \<and> (\<exists>mime_type file_extension name.
          split_format (Member CSV) = Inr (mime_type, file_extension) \<and>
          name = ''out'' @ file_extension \<and>
          handles ((fresh (\<lambda>k. Inr Map.empty) two_chunks)
             \<lparr>chunk_calls := [csv_request, csv_request],
               files := [''out.csv'' \<mapsto> ''a,bc''], handles := [''out.csv'']\<rparr>) =
            handles (fresh (\<lambda>k. Inr Map.empty) two_chunks) @ [name])"
  using second_sheet_export_ok export_worksheet_restores_index [OF second_sheet_export_ok]
  by (auto simp: second_sheet_def)










text \<open>
  With a \<open>filename\<close> given, a CSV or TSV export of a document of several worksheets that
  returns normally has opened one file per worksheet, in the order of the worksheets, each
  named by the path, the \<open>filename\<close>, the index of the worksheet and the extension; the
  worksheets are as they were.
\<close>

lemma export_each_names:
  assumes "split_format file_format = Inr (mime_type, file_extension)"
  shows "export_each file_format path (Some f) wss w = Some (Inr (), wss', w') \<Longrightarrow>
     wss' = wss \<and>
     handles w' = handles w @
       map (\<lambda>ws. path @ f @ str_int (index ws) @ file_extension) wss"
proof (induction wss arbitrary: w wss' w')
  case Nil
  then show ?case by simp
next
  case (Cons ws wss)
  from Cons.prems obtain r1 ws1 w1 where
    one: "export_worksheet ws file_format path (Some (f @ str_int (index ws))) w =
            Some (r1, ws1, w1)"
    by (auto split: option.splits)
  from Cons.prems one obtain u where r1: "r1 = Inr u"
    by (cases r1) auto
  with Cons.prems one obtain wss2 where
    rest: "export_each file_format path (Some f) wss w1 = Some (Inr (), wss2, w')"
    and wss': "wss' = ws1 # wss2"
    by (auto split: option.splits)
  from one r1 have one': "export_worksheet ws file_format path (Some (f @ str_int (index ws))) w =
            Some (Inr (), ws1, w1)" by simp
  note ret = export_worksheet_returns [OF one' assms]
  from download_frame [OF ret(2)]
  have h1: "handles w1 = handles w @ [path @ f @ str_int (index ws) @ file_extension]"
    by (auto split: if_splits)
  from Cons.IH [OF rest] ret(1) wss' h1 show ?case by simp
qed

lemma export_csv_names:
  assumes "export self (ASpreadsheet s) file_format path (Some f) w = Some (Inr (), sheet', w')"
    and "file_format = Member CSV \<or> file_format = Member TSV"
    and "length (worksheets s) > 1"
  shows "sheet' = ASpreadsheet s \<and>
     handles w' = handles w @
       map (\<lambda>ws. path @ f @ str_int (index ws) @
              (if file_format = Member CSV then ''.csv'' else ''.tsv'')) (worksheets s)"
proof -
  obtain mime_type where sp: "split_format file_format =
      Inr (mime_type, if file_format = Member CSV then ''.csv'' else ''.tsv'')"
    using assms(2) by (auto simp: split_format_def)
  from assms sp obtain wss' where
    each: "export_each file_format path (Some f) (worksheets s) w = Some (Inr (), wss', w')"
    and sheet': "sheet' = ASpreadsheet (s\<lparr>worksheets := wss'\<rparr>)"
    by (auto simp: export_def split: option.splits)
  from export_each_names [OF sp each] sheet' show ?thesis by simp
qed

text \<open>
  C3. \<^verbatim>\<open>export\<close> of a document of two worksheets as CSV with \<open>filename\<close> left at its
  default \<^verbatim>\<open>None\<close>: line 173 evaluates \<^verbatim>\<open>filename + str(worksheet.index)\<close> and raises
  \<^verbatim>\<open>TypeError\<close> before anything is requested or opened. With a \<open>filename\<close> the same call
  writes one file per worksheet, named by the base name, the index and the extension; and
  the branch for a single sheet does take the default, naming the file by the sheet's id.
\<close>

theorem export_default_filename_raises:
  "export init (ASpreadsheet document) (Member CSV) [] None (fresh (\<lambda>k. Inr Map.empty) one_chunk) =
     Some (Inl (TypeError ''unsupported operand type(s) for +: NoneType and str''),
           ASpreadsheet document, fresh (\<lambda>k. Inr Map.empty) one_chunk)
   \<and> map_option (\<lambda>x. (fst x, handles (snd (snd x))))
       (export init (ASpreadsheet document) (Member CSV) [] (Some ''out'')
          (fresh (\<lambda>k. Inr Map.empty) one_chunk)) =
     Some (Inr (), [''out0.csv'', ''out1.csv''])
   \<and> map_option (\<lambda>x. (fst x, handles (snd (snd x))))
       (export init (AWorksheet second_sheet) (Member CSV) [] None
          (fresh (\<lambda>k. Inr Map.empty) one_chunk)) =
     Some (Inr (), [''7.csv''])"
  by (simp add: export_def export_worksheet_def split_csv Let_def download_def FileIO_wb_def
      download_while.simps next_chunk_def fresh_def one_chunk_def document_def
      first_sheet_def second_sheet_def str_int_def str_nat.simps digit_def)

end
